theory Spec2Isabelle
  imports Complex_Main "HOL-Library.AList" "HOL-Library.Log_Nat" "HOL-Library.Sublist"
begin

section \<open>Values, exceptions and observable effects\<close>

text \<open>
  The parking controller is Python. Its functions are embedded as HOL functions:
  an exception is a value of \<open>exn\<close> on the left of a sum, mutable objects are
  records that are passed in and returned, and every effect on the outside world
  (a log line, a serial command, a sleep, an OCR call, a timer, a callback) is an
  \<open>event\<close>; a function returns the list of events it produced, in order.
  A log event carries the level and the message as the source writes it, format
  fields left uninterpolated.
\<close>

datatype exn =
  FileNotFoundError | JSONDecodeError | OSError | AttributeError | TypeError | KeyError | ValueError

datatype level = DEBUG | INFO | WARNING | ERROR

datatype zone = ENTRY | EXIT

datatype event =
    Log level string
  | Send string
  | Sleep rat
  | Ocr
  | Timer rat zone
  | Print
  | Callback zone

text \<open>
  What \<open>json.load\<close> returns. Numbers are rationals: Python compares an int and a
  float by value, so \<open>1\<close> and \<open>1.0\<close> are the same number here (NaN and the
  infinities, which Python's parser also accepts, are left out). An object is the
  list of its items in insertion order, keys distinct.
\<close>

datatype json =
    JNull
  | JBool bool
  | JNum rat
  | JStr string
  | JArr "json list"
  | JObj "(string \<times> json) list"

text \<open>\<open>d.get(k, default)\<close>: only a dict has the method.\<close>

fun dict_get :: "json \<Rightarrow> string \<Rightarrow> json \<Rightarrow> exn + json" where
  "dict_get (JObj kvs) k d = Inr (case map_of kvs k of None \<Rightarrow> d | Some v \<Rightarrow> v)"
| "dict_get _ k d = Inl AttributeError"

text \<open>\<open>d[k]\<close> with a string key.\<close>

fun subscript :: "json \<Rightarrow> string \<Rightarrow> exn + json" where
  "subscript (JObj kvs) k = (case map_of kvs k of None \<Rightarrow> Inl KeyError | Some v \<Rightarrow> Inr v)"
| "subscript _ k = Inl TypeError"

text \<open>
  \<open>for v in x\<close>: a list gives its elements, a string its characters, a dict its
  keys; anything else is not iterable. \<open>len(x)\<close> is defined on the same values and
  is the length of this list.
\<close>

fun py_iter :: "json \<Rightarrow> exn + json list" where
  "py_iter (JArr xs) = Inr xs"
| "py_iter (JStr s) = Inr (map (\<lambda>c. JStr [c]) s)"
| "py_iter (JObj kvs) = Inr (map (\<lambda>kv. JStr (fst kv)) kvs)"
| "py_iter _ = Inl TypeError"

fun hashable :: "json \<Rightarrow> bool" where
  "hashable (JArr xs) = False"
| "hashable (JObj kvs) = False"
| "hashable _ = True"

text \<open>Python's \<open>i == v\<close> for an int \<open>i\<close>: \<open>True\<close> is \<open>1\<close> and \<open>False\<close> is \<open>0\<close>.\<close>

fun int_eq :: "int \<Rightarrow> json \<Rightarrow> bool" where
  "int_eq i (JNum r) = (of_int i = r)"
| "int_eq i (JBool b) = (i = (if b then 1 else 0))"
| "int_eq i _ = False"

section \<open>data\_manager.py\<close>

text \<open>
  A data file is what opening and parsing it gives, and whether it can be written:
  \<open>Missing\<close> raises FileNotFoundError on open, \<open>Malformed\<close> raises
  JSONDecodeError in \<open>json.load\<close>, \<open>Unreadable\<close> raises any other error
  (a permission error, a directory in its place), \<open>Content j\<close> parses to \<open>j\<close>.
\<close>

datatype file_content = Missing | Malformed | Unreadable | Content json

record json_file =
  content :: file_content
  writable :: bool

record data_manager =
  vehicles_file :: json_file
  history_file :: json_file

text \<open>A naive \<open>datetime\<close> is its number of microseconds on the time line.\<close>

type_synonym datetime = int

definition read_json :: "json_file \<Rightarrow> (exn + json) \<times> event list" where
  "read_json f =
     (case content f of
        Missing \<Rightarrow> (Inr (JObj []), [Log WARNING ''File not found: {filepath}''])
      | Malformed \<Rightarrow> (Inr (JObj []), [Log ERROR ''JSON decode error in {filepath}: {e}''])
      | Unreadable \<Rightarrow> (Inl OSError, [])
      | Content j \<Rightarrow> (Inr j, []))"

text \<open>\<open>_write_json\<close> catches every exception of the write and only logs it.\<close>

definition write_json :: "json_file \<Rightarrow> json \<Rightarrow> json_file \<times> event list" where
  "write_json f data =
     (if writable f then (f\<lparr>content := Content data\<rparr>, [])
      else (f, [Log ERROR ''Error writing to {filepath}: {e}'']))"

text \<open>
  The loop \<open>for vehicle in vehicles: if vehicle.get("number_plate") == number_plate\<close>
  of \<open>add_vehicle_entry\<close> and \<open>get_vehicle_entry\<close>: the first match, or the
  exception of the first element that is not a dict, whichever comes first.
\<close>

fun find_vehicle :: "json list \<Rightarrow> string \<Rightarrow> exn + json option" where
  "find_vehicle [] number_plate = Inr None"
| "find_vehicle (vehicle # vs) number_plate =
     (case dict_get vehicle ''number_plate'' JNull of
        Inl e \<Rightarrow> Inl e
      | Inr p \<Rightarrow> if p = JStr number_plate then Inr (Some vehicle) else find_vehicle vs number_plate)"

text \<open>The body of the \<open>try\<close> block of \<open>add_vehicle_entry\<close>, after the read.\<close>

definition add_vehicle_entry_try ::
    "(datetime \<Rightarrow> string) \<Rightarrow> json_file \<Rightarrow> exn + json \<Rightarrow> string \<Rightarrow> datetime \<Rightarrow> int
      \<Rightarrow> exn + (bool \<times> json_file \<times> event list)" where
  "add_vehicle_entry_try isoformat f r number_plate entry_time slot =
     (case r of Inl e \<Rightarrow> Inl e | Inr data \<Rightarrow>
      (case dict_get data ''vehicles'' (JArr []) of Inl e \<Rightarrow> Inl e | Inr vehicles \<Rightarrow>
       (case py_iter vehicles of Inl e \<Rightarrow> Inl e | Inr vs \<Rightarrow>
        (case find_vehicle vs number_plate of
           Inl e \<Rightarrow> Inl e
         | Inr (Some v) \<Rightarrow> Inr (False, f, [Log WARNING ''Vehicle {number_plate} already in system''])
         | Inr None \<Rightarrow>
            (case (vehicles, data) of
               (JArr xs, JObj kvs) \<Rightarrow>
                 (let vehicle_entry = JObj [(''number_plate'', JStr number_plate),
                                           (''entry_time'', JStr (isoformat entry_time)),
                                           (''slot'', JNum (of_int slot))];
                      data' = JObj (AList.update ''vehicles'' (JArr (xs @ [vehicle_entry])) kvs);
                      (f', evs) = write_json f data'
                  in Inr (True, f',
                          evs @ [Log INFO ''Added vehicle entry: {number_plate} at slot {slot}'']))
             | _ \<Rightarrow> Inl AttributeError)))))"

definition add_vehicle_entry ::
    "(datetime \<Rightarrow> string) \<Rightarrow> data_manager \<Rightarrow> string \<Rightarrow> datetime \<Rightarrow> int
      \<Rightarrow> bool \<times> data_manager \<times> event list" where
  "add_vehicle_entry isoformat dm number_plate entry_time slot =
     (let (r, revs) = read_json (vehicles_file dm) in
      case add_vehicle_entry_try isoformat (vehicles_file dm) r number_plate entry_time slot of
        Inr (ok, f', evs) \<Rightarrow> (ok, dm\<lparr>vehicles_file := f'\<rparr>, revs @ evs)
      | Inl e \<Rightarrow> (False, dm, revs @ [Log ERROR ''Error adding vehicle entry: {e}'']))"

text \<open>
  \<open>get_vehicle_entry\<close> returns a copy of the record with its entry time parsed; the
  result here is that time and the record's items.
\<close>

definition get_vehicle_entry_try ::
    "(string \<Rightarrow> datetime option) \<Rightarrow> exn + json \<Rightarrow> string
      \<Rightarrow> exn + (datetime \<times> json) option" where
  "get_vehicle_entry_try fromisoformat r number_plate =
     (case r of Inl e \<Rightarrow> Inl e | Inr data \<Rightarrow>
      (case dict_get data ''vehicles'' (JArr []) of Inl e \<Rightarrow> Inl e | Inr vehicles \<Rightarrow>
       (case py_iter vehicles of Inl e \<Rightarrow> Inl e | Inr vs \<Rightarrow>
        (case find_vehicle vs number_plate of
           Inl e \<Rightarrow> Inl e
         | Inr None \<Rightarrow> Inr None
         | Inr (Some vehicle) \<Rightarrow>
            (case dict_get vehicle ''entry_time'' JNull of
               Inl e \<Rightarrow> Inl e
             | Inr (JStr entry_time_str) \<Rightarrow>
                 (case fromisoformat entry_time_str of
                    None \<Rightarrow> Inl ValueError
                  | Some t \<Rightarrow> Inr (Some (t, vehicle)))
             | Inr _ \<Rightarrow> Inl TypeError)))))"

definition get_vehicle_entry ::
    "(string \<Rightarrow> datetime option) \<Rightarrow> data_manager \<Rightarrow> string
      \<Rightarrow> (datetime \<times> json) option \<times> event list" where
  "get_vehicle_entry fromisoformat dm number_plate =
     (let (r, revs) = read_json (vehicles_file dm) in
      case get_vehicle_entry_try fromisoformat r number_plate of
        Inr found \<Rightarrow> (found, revs)
      | Inl e \<Rightarrow> (None, revs @ [Log ERROR ''Error getting vehicle entry: {e}'']))"

text \<open>The comprehension \<open>[v for v in vehicles if v.get("number_plate") != number_plate]\<close>.\<close>

fun without_plate :: "json list \<Rightarrow> string \<Rightarrow> exn + json list" where
  "without_plate [] number_plate = Inr []"
| "without_plate (v # vs) number_plate =
     (case dict_get v ''number_plate'' JNull of
        Inl e \<Rightarrow> Inl e
      | Inr p \<Rightarrow>
         (case without_plate vs number_plate of
            Inl e \<Rightarrow> Inl e
          | Inr rest \<Rightarrow> Inr (if p \<noteq> JStr number_plate then v # rest else rest)))"

definition remove_vehicle_entry_try ::
    "json_file \<Rightarrow> exn + json \<Rightarrow> string \<Rightarrow> exn + (bool \<times> json_file \<times> event list)" where
  "remove_vehicle_entry_try f r number_plate =
     (case r of Inl e \<Rightarrow> Inl e | Inr data \<Rightarrow>
      (case dict_get data ''vehicles'' (JArr []) of Inl e \<Rightarrow> Inl e | Inr vehicles \<Rightarrow>
       (case py_iter vehicles of Inl e \<Rightarrow> Inl e | Inr vs \<Rightarrow>
        (case without_plate vs number_plate of Inl e \<Rightarrow> Inl e | Inr vs' \<Rightarrow>
          (if length vs' < length vs then
             (case data of
                JObj kvs \<Rightarrow>
                  (let (f', evs) = write_json f (JObj (AList.update ''vehicles'' (JArr vs') kvs))
                   in Inr (True, f', evs @ [Log INFO ''Removed vehicle entry: {number_plate}'']))
              | _ \<Rightarrow> Inl TypeError)
           else Inr (False, f,
                     [Log WARNING ''Vehicle {number_plate} not found in active records'']))))))"

definition remove_vehicle_entry ::
    "data_manager \<Rightarrow> string \<Rightarrow> bool \<times> data_manager \<times> event list" where
  "remove_vehicle_entry dm number_plate =
     (let (r, revs) = read_json (vehicles_file dm) in
      case remove_vehicle_entry_try (vehicles_file dm) r number_plate of
        Inr (ok, f', evs) \<Rightarrow> (ok, dm\<lparr>vehicles_file := f'\<rparr>, revs @ evs)
      | Inl e \<Rightarrow> (False, dm, revs @ [Log ERROR ''Error removing vehicle entry: {e}'']))"

definition add_history_record_try ::
    "(datetime \<Rightarrow> string) \<Rightarrow> json_file \<Rightarrow> exn + json \<Rightarrow> string \<Rightarrow> datetime \<Rightarrow> datetime \<Rightarrow> rat
      \<Rightarrow> json \<Rightarrow> exn + (bool \<times> json_file \<times> event list)" where
  "add_history_record_try isoformat f r number_plate entry_time exit_time fee slot =
     (case r of Inl e \<Rightarrow> Inl e | Inr data \<Rightarrow>
      (case dict_get data ''history'' (JArr []) of Inl e \<Rightarrow> Inl e | Inr history \<Rightarrow>
       (case (history, data) of
          (JArr xs, JObj kvs) \<Rightarrow>
            (let history_entry = JObj [(''number_plate'', JStr number_plate),
                                      (''entry_time'', JStr (isoformat entry_time)),
                                      (''exit_time'', JStr (isoformat exit_time)),
                                      (''fee'', JNum fee),
                                      (''slot'', slot)];
                 (f', evs) = write_json f (JObj (AList.update ''history'' (JArr (xs @ [history_entry])) kvs))
             in Inr (True, f',
                     evs @ [Log INFO ''Added history record: {number_plate}, Fee: ${fee:.2f}'']))
        | _ \<Rightarrow> Inl AttributeError)))"

definition add_history_record ::
    "(datetime \<Rightarrow> string) \<Rightarrow> data_manager \<Rightarrow> string \<Rightarrow> datetime \<Rightarrow> datetime \<Rightarrow> rat \<Rightarrow> json
      \<Rightarrow> bool \<times> data_manager \<times> event list" where
  "add_history_record isoformat dm number_plate entry_time exit_time fee slot =
     (let (r, revs) = read_json (history_file dm) in
      case add_history_record_try isoformat (history_file dm) r number_plate entry_time exit_time fee slot of
        Inr (ok, f', evs) \<Rightarrow> (ok, dm\<lparr>history_file := f'\<rparr>, revs @ evs)
      | Inl e \<Rightarrow> (False, dm, revs @ [Log ERROR ''Error adding history record: {e}'']))"

text \<open>
  The set comprehension \<open>{v.get("slot") for v in vehicles if v.get("slot") is not None}\<close>:
  putting a list or a dict into a set raises TypeError.
\<close>

fun occupied_slots :: "json list \<Rightarrow> exn + json list" where
  "occupied_slots [] = Inr []"
| "occupied_slots (v # vs) =
     (case dict_get v ''slot'' JNull of
        Inl e \<Rightarrow> Inl e
      | Inr s \<Rightarrow>
         (if s = JNull then occupied_slots vs
          else if \<not> hashable s then Inl TypeError
          else (case occupied_slots vs of Inl e \<Rightarrow> Inl e | Inr ss \<Rightarrow> Inr (s # ss))))"

definition get_available_slots_try :: "exn + json \<Rightarrow> int \<Rightarrow> exn + int list" where
  "get_available_slots_try r total_slots =
     (case r of Inl e \<Rightarrow> Inl e | Inr data \<Rightarrow>
      (case dict_get data ''vehicles'' (JArr []) of Inl e \<Rightarrow> Inl e | Inr vehicles \<Rightarrow>
       (case py_iter vehicles of Inl e \<Rightarrow> Inl e | Inr vs \<Rightarrow>
        (case occupied_slots vs of Inl e \<Rightarrow> Inl e | Inr occupied \<Rightarrow>
          Inr (filter (\<lambda>i. \<not> list_ex (int_eq i) occupied) [1..total_slots])))))"

definition get_available_slots :: "data_manager \<Rightarrow> int \<Rightarrow> int list \<times> event list" where
  "get_available_slots dm total_slots =
     (let (r, revs) = read_json (vehicles_file dm) in
      case get_available_slots_try r total_slots of
        Inr available \<Rightarrow> (available, revs)
      | Inl e \<Rightarrow> ([1..total_slots], revs @ [Log ERROR ''Error getting available slots: {e}'']))"

definition is_parking_full :: "data_manager \<Rightarrow> int \<Rightarrow> bool \<times> event list" where
  "is_parking_full dm total_slots =
     (let (available_slots, evs) = get_available_slots dm total_slots
      in (length available_slots = 0, evs))"

section \<open>fee\_calculator.py\<close>

text \<open>
  A Python float is an IEEE double: a rational \<open>m * 2 ^ e\<close> with \<open>\<bar>m\<bar> < 2 ^ 53\<close>.
  Every float operation of the calculator (the true division of two ints in
  \<open>timedelta.total_seconds\<close>, the division by \<open>3600.0\<close>, the product with the
  hourly rate) returns the exact result rounded to the nearest double, ties to the
  even mantissa; \<open>round_double\<close> is that rounding. The exponent is not bounded
  here. Durations and hours never reach overflow or the subnormal numbers, and the
  product of an int and a double is never rounded among the subnormal numbers; a
  product too large for a double, which Python evaluates to \<open>inf\<close>, is left out:
  it needs an hourly rate beyond \<open>1e300\<close>. The hourly rate is a finite float
  (the default \<open>10.0\<close>, or the \<open>--hourly-rate\<close> argument parsed by \<open>float\<close>).
\<close>

definition round_half_even :: "rat \<Rightarrow> int" where
  "round_half_even y =
     (let f = \<lfloor>y\<rfloor>; r = y - of_int f
      in if r < 1 / 2 then f else if 1 / 2 < r then f + 1 else if even f then f else f + 1)"

text \<open>For \<open>x > 0\<close>, the \<open>e\<close> with \<open>2 ^ e \<le> x < 2 ^ (e + 1)\<close>.\<close>

definition binary_exponent :: "rat \<Rightarrow> int" where
  "binary_exponent x =
     (let (p, q) = quotient_of x; g = bitlen p - bitlen q
      in if 2 powi g \<le> x then g else g - 1)"

definition round_double :: "rat \<Rightarrow> rat" where
  "round_double x =
     (if x = 0 then 0
      else (let a = \<bar>x\<bar>; e = binary_exponent a - 52
            in sgn x * of_int (round_half_even (a / 2 powi e)) * 2 powi e))"

text \<open>
  \<open>timedelta.total_seconds\<close> divides the duration's microseconds by \<open>10 ** 6\<close>;
  \<open>math.ceil\<close> of a float is the exact ceiling of its value.
\<close>

definition total_seconds :: "int \<Rightarrow> rat" where
  "total_seconds duration = round_double (of_int duration / 1000000)"

definition round_up_hours :: "rat \<Rightarrow> int" where
  "round_up_hours hours = \<lceil>hours\<rceil>"

definition calculate_fee ::
    "rat \<Rightarrow> datetime option \<Rightarrow> datetime option \<Rightarrow> rat \<times> event list" where
  "calculate_fee hourly_rate entry_time exit_time =
     (case (entry_time, exit_time) of
        (Some entry_t, Some exit_t) \<Rightarrow>
          (if exit_t < entry_t then (0, [Log ERROR ''Exit time is before entry time''])
           else
             (let duration = exit_t - entry_t;
                  hours = round_double (total_seconds duration / 3600);
                  hours_rounded = round_up_hours hours;
                  fee = round_double (of_int hours_rounded * hourly_rate)
              in (fee, [Log INFO ''Parking duration: {duration}, Hours: {hours:.2f}, Fee: ${fee:.2f}''])))
      | _ \<Rightarrow> (0, [Log ERROR ''Invalid entry or exit time'']))"

text \<open>A time of day, \<open>h:m:s\<close>, as a \<open>datetime\<close> of some fixed day.\<close>

definition clock :: "int \<Rightarrow> int \<Rightarrow> int \<Rightarrow> datetime" where
  "clock h m s = ((h * 60 + m) * 60 + s) * 1000000"

section \<open>camera\_handler.py\<close>

subsection \<open>Plate text\<close>

text \<open>
  \<open>str.upper\<close> and \<open>str.isalnum\<close> are given by the interpreter's Unicode tables,
  which are not part of the repository: they are parameters here, \<open>str_upper\<close> on
  strings (upper-casing can change the length: a sharp s becomes \<open>SS\<close>) and
  \<open>str_isalnum\<close> on characters. A string is a list of characters of any type.
\<close>

definition clean_number_plate_text ::
    "('c list \<Rightarrow> 'c list) \<Rightarrow> ('c \<Rightarrow> bool) \<Rightarrow> 'c list \<Rightarrow> 'c list" where
  "clean_number_plate_text str_upper str_isalnum ocr_text =
     (let cleaned = filter str_isalnum (str_upper ocr_text)
      in if length cleaned < 3 \<or> length cleaned > 10 then [] else cleaned)"

text \<open>
  \<open>image_to_string\<close> stands for \<open>preprocess_image\<close> followed by the OCR engine:
  either may raise. The \<open>Ocr\<close> event marks that a recognition was attempted.
\<close>

definition extract_number_plate ::
    "('c list \<Rightarrow> 'c list) \<Rightarrow> ('c \<Rightarrow> bool) \<Rightarrow> ('img \<Rightarrow> exn + 'c list) \<Rightarrow> 'img option
      \<Rightarrow> 'c list option \<times> event list" where
  "extract_number_plate str_upper str_isalnum image_to_string zone_image =
     (case zone_image of
        None \<Rightarrow> (None, [])
      | Some img \<Rightarrow>
         (case image_to_string img of
            Inl e \<Rightarrow> (None, [Ocr, Log ERROR ''Error extracting number plate: {e}''])
          | Inr ocr_text \<Rightarrow>
             (let cleaned_text = clean_number_plate_text str_upper str_isalnum ocr_text
              in if cleaned_text \<noteq> []
                 then (Some cleaned_text, [Ocr, Log INFO ''Extracted number plate: {cleaned_text}''])
                 else (None, [Ocr, Log WARNING ''No number plate text extracted'']))))"

text \<open>\<open>crop\<close> is the slicing of the frame by the zone's rectangle.\<close>

definition extract_zone ::
    "('img \<Rightarrow> zone \<Rightarrow> exn + 'img) \<Rightarrow> 'img option \<Rightarrow> zone \<Rightarrow> 'img option \<times> event list" where
  "extract_zone crop frame zone =
     (case frame of
        None \<Rightarrow> (None, [])
      | Some fr \<Rightarrow>
         (case crop fr zone of
            Inl e \<Rightarrow> (None, [Log ERROR ''Error extracting {zone.value} zone: {e}''])
          | Inr zone_image \<Rightarrow> (Some zone_image, [])))"

definition extract_number_plate_from_zone ::
    "('c list \<Rightarrow> 'c list) \<Rightarrow> ('c \<Rightarrow> bool) \<Rightarrow> ('img \<Rightarrow> exn + 'c list)
      \<Rightarrow> ('img \<Rightarrow> zone \<Rightarrow> exn + 'img) \<Rightarrow> 'img option \<Rightarrow> zone
      \<Rightarrow> 'c list option \<times> event list" where
  "extract_number_plate_from_zone str_upper str_isalnum image_to_string crop frame zone =
     (let (zone_image, evs) = extract_zone crop frame zone
      in case zone_image of
           None \<Rightarrow> (None, evs)
         | Some z \<Rightarrow>
            (let (number_plate, evs') =
                   extract_number_plate str_upper str_isalnum image_to_string (Some z)
             in (number_plate, evs @ evs')))"

subsection \<open>Virtual line crossing\<close>

text \<open>
  A contour as the detector uses it: its area and its bounding rectangle
  \<open>(x, y, w, h)\<close> in the coordinates of the zone's crop. The contours of a call
  are the list the contour finder returns for the zone's crop of the mask.
\<close>

record contour =
  contour_area :: rat
  rect_x :: int
  rect_y :: int
  rect_w :: int
  rect_h :: int

record zone_rect =
  zone_x1 :: int
  zone_y1 :: int
  zone_x2 :: int
  zone_y2 :: int

text \<open>
  The fields of the handler the detector reads and writes. The line positions are
  \<open>None\<close> until \<open>initialize_camera\<close> has read a frame.
\<close>

record camera_handler =
  entry_zone :: zone_rect
  exit_zone :: zone_rect
  motion_threshold :: rat
  entry_virtual_line_y :: "int option"
  exit_virtual_line_y :: "int option"
  last_entry_crossing_time :: rat
  last_exit_crossing_time :: rat
  crossing_cooldown :: rat

text \<open>A registered callback either returns or raises.\<close>

datatype callback = Returns | Raises exn

text \<open>The \<open>for contour in contours\<close> loop: the contour at which it breaks, if any.\<close>

fun first_crossing :: "rat \<Rightarrow> int \<Rightarrow> contour list \<Rightarrow> contour option" where
  "first_crossing threshold zone_virtual_line_y [] = None"
| "first_crossing threshold zone_virtual_line_y (c # cs) =
     (if contour_area c < threshold then first_crossing threshold zone_virtual_line_y cs
      else
        (let contour_bottom = rect_y c + rect_h c;
             contour_top = rect_y c
         in if contour_top \<le> zone_virtual_line_y \<and> zone_virtual_line_y \<le> contour_bottom
            then Some c
            else first_crossing threshold zone_virtual_line_y cs))"

definition check_virtual_line_crossing ::
    "camera_handler \<Rightarrow> rat \<Rightarrow> contour list \<Rightarrow> zone \<Rightarrow> callback option
      \<Rightarrow> exn + (camera_handler \<times> event list)" where
  "check_virtual_line_crossing h current_time contours zone cb =
     (let (y1, virtual_line_y, last_crossing_time) =
            (case zone of
               ENTRY \<Rightarrow> (zone_y1 (entry_zone h), entry_virtual_line_y h, last_entry_crossing_time h)
             | EXIT \<Rightarrow> (zone_y1 (exit_zone h), exit_virtual_line_y h, last_exit_crossing_time h))
      in case virtual_line_y of
           None \<Rightarrow> Inl TypeError
         | Some vy \<Rightarrow>
            (let zone_virtual_line_y = vy - y1
             in if current_time - last_crossing_time < crossing_cooldown h then Inr (h, [])
                else
                  (case first_crossing (motion_threshold h) zone_virtual_line_y contours of
                     None \<Rightarrow> Inr (h, [])
                   | Some c \<Rightarrow>
                      Inr (case zone of
                             ENTRY \<Rightarrow> h\<lparr>last_entry_crossing_time := current_time\<rparr>
                           | EXIT \<Rightarrow> h\<lparr>last_exit_crossing_time := current_time\<rparr>,
                           Log INFO ''Vehicle detected crossing {zone.value} virtual line'' #
                           (case cb of
                              None \<Rightarrow> []
                            | Some Returns \<Rightarrow> [Callback zone]
                            | Some (Raises e) \<Rightarrow>
                                [Callback zone, Log ERROR ''Error in {zone.value} callback: {e}''])))))"

text \<open>
  One iteration of \<open>_process_frames\<close> reads a frame and checks the entry zone, then
  the exit zone; each check reads the clock itself. \<open>process_frames\<close> runs the loop
  over the frames read while \<open>processing\<close> is set and returns the checks it made,
  in order: the zone, the clock reading and the events of each. An exception that
  leaves a check ends the loop.
\<close>

record frame =
  ret :: bool
  entry_now :: rat
  entry_contours :: "contour list"
  entry_cb :: "callback option"
  exit_now :: rat
  exit_contours :: "contour list"
  exit_cb :: "callback option"

fun process_frames :: "camera_handler \<Rightarrow> frame list \<Rightarrow> (zone \<times> rat \<times> event list) list" where
  "process_frames h [] = []"
| "process_frames h (fr # frs) =
     (if \<not> ret fr then process_frames h frs
      else
        (case check_virtual_line_crossing h (entry_now fr) (entry_contours fr) ENTRY (entry_cb fr) of
           Inl e \<Rightarrow> []
         | Inr (h1, evs1) \<Rightarrow>
            (ENTRY, entry_now fr, evs1) #
            (case check_virtual_line_crossing h1 (exit_now fr) (exit_contours fr) EXIT (exit_cb fr) of
               Inl e \<Rightarrow> []
             | Inr (h2, evs2) \<Rightarrow> (EXIT, exit_now fr, evs2) # process_frames h2 frs)))"

text \<open>
  The specification's wording of the detector: the first contour in enumeration order that
  is large enough and whose vertical extent contains the trigger row.
\<close>

definition straddles :: "rat \<Rightarrow> int \<Rightarrow> contour \<Rightarrow> bool" where
  "straddles threshold row c =
     (threshold \<le> contour_area c \<and> rect_y c \<le> row \<and> row \<le> rect_y c + rect_h c)"

definition spec_first_crossing :: "rat \<Rightarrow> int \<Rightarrow> contour list \<Rightarrow> contour option" where
  "spec_first_crossing threshold row cs = List.find (straddles threshold row) cs"

section \<open>config\_manager.py and the configuration read by \<open>CameraHandler.__init__\<close>\<close>

definition DEFAULT_CONFIG :: json where
  "DEFAULT_CONFIG =
     JObj [(''entry_zone'', JObj [(''x1'', JNum 0), (''y1'', JNum 0), (''x2'', JNum 640), (''y2'', JNum 480)]),
           (''exit_zone'', JObj [(''x1'', JNum 640), (''y1'', JNum 0), (''x2'', JNum 1280), (''y2'', JNum 480)]),
           (''entry_virtual_line_position'', JNum (1 / 2)),
           (''exit_virtual_line_position'', JNum (1 / 2)),
           (''frame_width'', JNum 1280),
           (''frame_height'', JNum 720),
           (''motion_threshold'', JNum 500)]"

text \<open>
  The configuration file, by what \<open>load_config\<close> meets: \<open>Missing\<close> when
  \<open>os.path.exists\<close> is false, \<open>Malformed\<close> when \<open>json.load\<close> raises
  JSONDecodeError, \<open>Unreadable\<close> for any other exception, \<open>Content j\<close> when the
  file parses to \<open>j\<close>.
\<close>

definition load_config :: "file_content \<Rightarrow> json \<times> event list" where
  "load_config config_file =
     (case config_file of
        Content j \<Rightarrow> (j, [Log INFO ''Configuration loaded from {self.config_file}''])
      | Missing \<Rightarrow>
          (DEFAULT_CONFIG,
           [Log WARNING ''Configuration file not found: {self.config_file}. Using defaults.''])
      | Malformed \<Rightarrow>
          (DEFAULT_CONFIG, [Log ERROR ''Error parsing configuration file: {e}. Using defaults.''])
      | Unreadable \<Rightarrow>
          (DEFAULT_CONFIG, [Log ERROR ''Error loading configuration: {e}. Using defaults.'']))"

text \<open>The values \<open>CameraHandler.__init__\<close> takes from the configuration.\<close>

record camera_config =
  cfg_entry_zone :: json
  cfg_exit_zone :: json
  cfg_entry_virtual_line_position :: json
  cfg_exit_virtual_line_position :: json
  cfg_motion_threshold :: json
  cfg_frame_width :: json
  cfg_frame_height :: json

definition camera_handler_init :: "bool \<Rightarrow> file_content \<Rightarrow> (exn + camera_config) \<times> event list" where
  "camera_handler_init use_config config_file =
     (if use_config then
        (let (config, evs) = load_config config_file
         in ((case subscript config ''entry_zone'' of Inl e \<Rightarrow> Inl e | Inr ez \<Rightarrow>
             (case subscript config ''exit_zone'' of Inl e \<Rightarrow> Inl e | Inr xz \<Rightarrow>
              (case dict_get config ''entry_virtual_line_position'' (JNum (1 / 2)) of Inl e \<Rightarrow> Inl e | Inr el \<Rightarrow>
               (case dict_get config ''exit_virtual_line_position'' (JNum (1 / 2)) of Inl e \<Rightarrow> Inl e | Inr xl \<Rightarrow>
                (case dict_get config ''motion_threshold'' (JNum 500) of Inl e \<Rightarrow> Inl e | Inr mt \<Rightarrow>
                 (case dict_get config ''frame_width'' (JNum 1280) of Inl e \<Rightarrow> Inl e | Inr fw \<Rightarrow>
                  (case dict_get config ''frame_height'' (JNum 720) of Inl e \<Rightarrow> Inl e | Inr fh \<Rightarrow>
                    Inr \<lparr>cfg_entry_zone = ez, cfg_exit_zone = xz,
                         cfg_entry_virtual_line_position = el, cfg_exit_virtual_line_position = xl,
                         cfg_motion_threshold = mt, cfg_frame_width = fw, cfg_frame_height = fh\<rparr>))))))),
             evs))
      else
        (Inr \<lparr>cfg_entry_zone = JObj [(''x1'', JNum 0), (''y1'', JNum 0), (''x2'', JNum 640), (''y2'', JNum 480)],
              cfg_exit_zone = JObj [(''x1'', JNum 640), (''y1'', JNum 0), (''x2'', JNum 1280), (''y2'', JNum 480)],
              cfg_entry_virtual_line_position = JNum (1 / 2),
              cfg_exit_virtual_line_position = JNum (1 / 2),
              cfg_motion_threshold = JNum 500, cfg_frame_width = JNum 1280, cfg_frame_height = JNum 720\<rparr>,
         []))"

section \<open>main.py: the gate coordinator\<close>

text \<open>
  What a handler takes from outside the program: the interpreter's \<open>str.upper\<close>
  and \<open>str.isalnum\<close>, the OCR engine and the cropping of a frame (both on opaque
  images), the clock reading of its \<open>datetime.now()\<close>, and the library's ISO
  formatting and parsing of a \<open>datetime\<close>.
\<close>

record 'img env =
  env_upper :: "string \<Rightarrow> string"
  env_isalnum :: "char \<Rightarrow> bool"
  env_image_to_string :: "'img \<Rightarrow> exn + string"
  env_crop :: "'img \<Rightarrow> zone \<Rightarrow> exn + 'img"
  env_now :: datetime
  env_isoformat :: "datetime \<Rightarrow> string"
  env_fromisoformat :: "string \<Rightarrow> datetime option"

record parking_system =
  total_slots :: int
  hourly_rate :: rat
  data_manager :: data_manager
  entry_gate_processing :: bool
  exit_gate_processing :: bool
  slot_occupied :: bool

text \<open>A command handed to \<open>send_command\<close> is a \<open>Send\<close> event; its result is ignored by every caller.\<close>

definition handle_message :: "parking_system \<Rightarrow> string \<Rightarrow> parking_system \<times> event list" where
  "handle_message s message =
     (if message = ''SLOT_OCCUPIED''
      then (s\<lparr>slot_occupied := True\<rparr>,
            [Log DEBUG ''Handling message: {message}'', Log INFO ''Parking slot is now occupied''])
      else if message = ''SLOT_FREE''
      then (s\<lparr>slot_occupied := False\<rparr>,
            [Log DEBUG ''Handling message: {message}'', Log INFO ''Parking slot is now free''])
      else (s, [Log DEBUG ''Handling message: {message}'', Log WARNING ''Unknown message: {message}'']))"

text \<open>Python's \<open>not number_plate\<close>: \<open>None\<close> and the empty string are false.\<close>

fun falsy :: "string option \<Rightarrow> bool" where
  "falsy None = True"
| "falsy (Some p) = (p = [])"

text \<open>
  The plate reading both handlers start with: one extraction from the zone image
  of the crossing and, when that gives nothing, a second one half a second later
  from the zone cropped out of the full frame.
\<close>

definition extracting_message :: "zone \<Rightarrow> string" where
  "extracting_message zone =
     (case zone of
        ENTRY \<Rightarrow> ''Extracting number plate from entry zone...''
      | EXIT \<Rightarrow> ''Extracting number plate from exit zone...'')"

definition read_number_plate ::
    "'img env \<Rightarrow> 'img \<Rightarrow> 'img \<Rightarrow> zone \<Rightarrow> string option \<times> event list" where
  "read_number_plate env fr zone_image zone =
     (let (number_plate, evs) =
            extract_number_plate (env_upper env) (env_isalnum env) (env_image_to_string env)
              (Some zone_image)
      in if falsy number_plate then
           (let (number_plate', evs') =
                  extract_number_plate_from_zone (env_upper env) (env_isalnum env)
                    (env_image_to_string env) (env_crop env) (Some fr) zone
            in (number_plate',
                Log INFO (extracting_message zone) # evs @
                [Log WARNING ''Failed to extract number plate. Retrying...'', Sleep (1 / 2)] @ evs'))
         else (number_plate, Log INFO (extracting_message zone) # evs))"

definition handle_entry_virtual_line ::
    "'img env \<Rightarrow> parking_system \<Rightarrow> 'img \<Rightarrow> 'img \<Rightarrow> parking_system \<times> event list" where
  "handle_entry_virtual_line env s fr zone_image =
     (if entry_gate_processing s
      then (s, [Log WARNING ''Entry gate already processing, ignoring virtual line trigger''])
      else
        (let s1 = s\<lparr>entry_gate_processing := True\<rparr>;
             ev0 = [Log INFO ''Vehicle detected crossing entry virtual line''];
             (full, ev1) = is_parking_full (data_manager s1) (total_slots s1)
         in if full \<or> slot_occupied s1 then
              (s1\<lparr>entry_gate_processing := False\<rparr>,
               ev0 @ ev1 @ [Log WARNING ''Parking is full! Activating buzzer...'',
                            Send ''BUZZER_ON'', Sleep 3, Send ''BUZZER_OFF''])
            else
              (let (number_plate, ev2) = read_number_plate env fr zone_image ENTRY
               in case number_plate of
                    None \<Rightarrow>
                      (s1\<lparr>entry_gate_processing := False\<rparr>,
                       ev0 @ ev1 @ ev2 @
                       [Log ERROR ''Failed to extract number plate after retry. Entry denied.''])
                  | Some p \<Rightarrow>
                     (if p = [] then
                        (s1\<lparr>entry_gate_processing := False\<rparr>,
                         ev0 @ ev1 @ ev2 @
                         [Log ERROR ''Failed to extract number plate after retry. Entry denied.''])
                      else
                        (let ev3 = [Log INFO ''Number plate extracted: {number_plate}''];
                             (existing_vehicle, ev4) =
                                get_vehicle_entry (env_fromisoformat env) (data_manager s1) p
                         in if existing_vehicle \<noteq> None then
                              (s1\<lparr>entry_gate_processing := False\<rparr>,
                               ev0 @ ev1 @ ev2 @ ev3 @ ev4 @
                               [Log WARNING ''Vehicle {number_plate} is already in the system!''])
                            else
                              (let (available_slots, ev5) =
                                     get_available_slots (data_manager s1) (total_slots s1)
                               in case available_slots of
                                    [] \<Rightarrow>
                                      (s1\<lparr>entry_gate_processing := False\<rparr>,
                                       ev0 @ ev1 @ ev2 @ ev3 @ ev4 @ ev5 @
                                       [Log ERROR ''No available slots (race condition?)''])
                                  | slot # rest \<Rightarrow>
                                     (let entry_time = env_now env;
                                          (ok, dm', ev6) =
                                             add_vehicle_entry (env_isoformat env) (data_manager s1)
                                               p entry_time slot
                                      in if ok then
                                           (s1\<lparr>data_manager := dm'\<rparr>,
                                            ev0 @ ev1 @ ev2 @ ev3 @ ev4 @ ev5 @ ev6 @
                                            [Log INFO ''Vehicle {number_plate} entered at {entry_time}, assigned to slot {slot}'',
                                             Send ''OPEN_ENTRY_GATE'', Timer 5 ENTRY])
                                         else
                                           (s1\<lparr>data_manager := dm', entry_gate_processing := False\<rparr>,
                                            ev0 @ ev1 @ ev2 @ ev3 @ ev4 @ ev5 @ ev6 @
                                            [Log ERROR ''Failed to add vehicle entry record'']))))))))"

definition close_entry_gate_after_timeout :: "parking_system \<Rightarrow> parking_system \<times> event list" where
  "close_entry_gate_after_timeout s =
     (if entry_gate_processing s
      then (s\<lparr>entry_gate_processing := False\<rparr>,
            [Send ''CLOSE_ENTRY_GATE'', Log INFO ''Entry gate closed after timeout''])
      else (s, []))"

text \<open>
  The exit handler can be left by an exception (the record's \<open>"slot"\<close> is read by
  subscript); the first component of its result is that exception, if any.
  The receipt's \<open>print\<close> calls are one \<open>Print\<close> event; the strings made for it and
  for the log by \<open>calculate_duration_string\<close> and \<open>format_fee\<close> are not computed.
\<close>

definition handle_exit_virtual_line ::
    "'img env \<Rightarrow> parking_system \<Rightarrow> 'img \<Rightarrow> 'img \<Rightarrow> exn option \<times> parking_system \<times> event list" where
  "handle_exit_virtual_line env s fr zone_image =
     (if exit_gate_processing s
      then (None, s, [Log WARNING ''Exit gate already processing, ignoring virtual line trigger''])
      else
        (let s1 = s\<lparr>exit_gate_processing := True\<rparr>;
             ev0 = [Log INFO ''Vehicle detected crossing exit virtual line''];
             (number_plate, ev1) = read_number_plate env fr zone_image EXIT
         in case number_plate of
              None \<Rightarrow>
                (None, s1\<lparr>exit_gate_processing := False\<rparr>,
                 ev0 @ ev1 @ [Log ERROR ''Failed to extract number plate after retry.''])
            | Some p \<Rightarrow>
               (if p = [] then
                  (None, s1\<lparr>exit_gate_processing := False\<rparr>,
                   ev0 @ ev1 @ [Log ERROR ''Failed to extract number plate after retry.''])
                else
                  (let ev2 = [Log INFO ''Number plate extracted: {number_plate}''];
                       (vehicle_entry, ev3) =
                          get_vehicle_entry (env_fromisoformat env) (data_manager s1) p
                   in case vehicle_entry of
                        None \<Rightarrow>
                          (None, s1\<lparr>exit_gate_processing := False\<rparr>,
                           ev0 @ ev1 @ ev2 @ ev3 @
                           [Log WARNING ''Vehicle {number_plate} not found in system. Entry may have failed.''])
                      | Some (entry_time, vehicle) \<Rightarrow>
                         (let exit_time = env_now env;
                              (fee, ev4) = calculate_fee (hourly_rate s1) (Some entry_time) (Some exit_time);
                              ev5 = [Log INFO ''Vehicle {number_plate} - Duration: {duration_str}, Fee: {self.fee_calculator.format_fee(fee)}'',
                                     Print]
                          in case subscript vehicle ''slot'' of
                               Inl e \<Rightarrow> (Some e, s1, ev0 @ ev1 @ ev2 @ ev3 @ ev4 @ ev5)
                             | Inr slot \<Rightarrow>
                                (let (ok1, dm1, ev6) =
                                        add_history_record (env_isoformat env) (data_manager s1)
                                          p entry_time exit_time fee slot;
                                     (ok2, dm2, ev7) = remove_vehicle_entry dm1 p
                                 in (None, s1\<lparr>data_manager := dm2\<rparr>,
                                     ev0 @ ev1 @ ev2 @ ev3 @ ev4 @ ev5 @ ev6 @ ev7 @
                                     [Log INFO ''Vehicle {number_plate} removed from active records'',
                                      Send ''OPEN_EXIT_GATE'', Timer 5 EXIT])))))))"

definition close_exit_gate_after_timeout :: "parking_system \<Rightarrow> parking_system \<times> event list" where
  "close_exit_gate_after_timeout s =
     (if exit_gate_processing s
      then (s\<lparr>exit_gate_processing := False\<rparr>,
            [Send ''CLOSE_EXIT_GATE'', Log INFO ''Exit gate closed after timeout''])
      else (s, []))"

section \<open>Observations and scenarios\<close>

text \<open>The commands handed to the serial link, in order, and the events that are log lines.\<close>

fun sent :: "event list \<Rightarrow> string list" where
  "sent [] = []"
| "sent (Send c # evs) = c # sent evs"
| "sent (e # evs) = sent evs"

fun is_log :: "event \<Rightarrow> bool" where
  "is_log (Log l m) = True"
| "is_log e = False"

text \<open>
  The active records of the store are the elements of the \<open>"vehicles"\<close> list of the
  vehicles file; the plate of a record is its \<open>"number_plate"\<close>.
\<close>

fun record_plate :: "json \<Rightarrow> json" where
  "record_plate (JObj kvs) = (case map_of kvs ''number_plate'' of None \<Rightarrow> JNull | Some p \<Rightarrow> p)"
| "record_plate v = JNull"

definition active_records :: "data_manager \<Rightarrow> json list" where
  "active_records dm =
     (case content (vehicles_file dm) of
        Content (JObj kvs) \<Rightarrow> (case map_of kvs ''vehicles'' of Some (JArr vs) \<Rightarrow> vs | _ \<Rightarrow> [])
      | _ \<Rightarrow> [])"

definition has_active_record :: "data_manager \<Rightarrow> string \<Rightarrow> bool" where
  "has_active_record dm number_plate = (JStr number_plate \<in> set (map record_plate (active_records dm)))"

fun is_str :: "json \<Rightarrow> bool" where
  "is_str (JStr s) = True"
| "is_str v = False"

definition plates_unique :: "data_manager \<Rightarrow> bool" where
  "plates_unique dm = distinct (filter is_str (map record_plate (active_records dm)))"

text \<open>The detector's per-zone fields, and what a check did.\<close>

definition virtual_line_of :: "camera_handler \<Rightarrow> zone \<Rightarrow> int option" where
  "virtual_line_of h z = (case z of ENTRY \<Rightarrow> entry_virtual_line_y h | EXIT \<Rightarrow> exit_virtual_line_y h)"

definition last_crossing_of :: "camera_handler \<Rightarrow> zone \<Rightarrow> rat" where
  "last_crossing_of h z = (case z of ENTRY \<Rightarrow> last_entry_crossing_time h | EXIT \<Rightarrow> last_exit_crossing_time h)"

definition zone_top_of :: "camera_handler \<Rightarrow> zone \<Rightarrow> int" where
  "zone_top_of h z = (case z of ENTRY \<Rightarrow> zone_y1 (entry_zone h) | EXIT \<Rightarrow> zone_y1 (exit_zone h))"

definition crossing_declared :: "exn + camera_handler \<times> event list \<Rightarrow> bool" where
  "crossing_declared r = (case r of Inr (h, evs) \<Rightarrow> evs \<noteq> [] | Inl e \<Rightarrow> False)"

definition callback_invoked :: "exn + camera_handler \<times> event list \<Rightarrow> zone \<Rightarrow> bool" where
  "callback_invoked r z = (case r of Inr (h, evs) \<Rightarrow> Callback z \<in> set evs | Inl e \<Rightarrow> False)"

text \<open>How many times a list of events invokes the callback of a zone.\<close>

definition callbacks :: "zone \<Rightarrow> event list \<Rightarrow> nat" where
  "callbacks z evs = length (filter (\<lambda>e. e = Callback z) evs)"

definition callbacks_fired :: "exn + camera_handler \<times> event list \<Rightarrow> zone \<Rightarrow> nat" where
  "callbacks_fired r z = (case r of Inr (h, evs) \<Rightarrow> callbacks z evs | Inl e \<Rightarrow> 0)"

text \<open>
  Of the checks of a run: the clock readings of those of a zone that declared a
  crossing (their events are not empty), and the clock readings of the callback
  invocations of a zone, one for each \<open>Callback\<close> event.
\<close>

definition crossing_times :: "zone \<Rightarrow> (zone \<times> rat \<times> event list) list \<Rightarrow> rat list" where
  "crossing_times z run = map (\<lambda>c. fst (snd c)) (filter (\<lambda>c. fst c = z \<and> snd (snd c) \<noteq> []) run)"

definition callback_times :: "zone \<Rightarrow> (zone \<times> rat \<times> event list) list \<Rightarrow> rat list" where
  "callback_times z run = concat (map (\<lambda>c. replicate (callbacks z (snd (snd c))) (fst (snd c))) run)"

text \<open>
  Scenarios for the concrete runs below: a plate reader stub that reads the given
  ASCII text from every image, with \<open>str.upper\<close> and \<open>str.isalnum\<close> as they are
  on ASCII text; a clock at 12:00:00; a store with one car that entered at
  10:00:00 into slot 1; and a coordinator at rest.
\<close>

definition is_digit :: "char \<Rightarrow> bool" where
  "is_digit c = (48 \<le> (of_char c :: nat) \<and> (of_char c :: nat) \<le> 57)"

definition is_upper :: "char \<Rightarrow> bool" where
  "is_upper c = (65 \<le> (of_char c :: nat) \<and> (of_char c :: nat) \<le> 90)"

definition is_lower :: "char \<Rightarrow> bool" where
  "is_lower c = (97 \<le> (of_char c :: nat) \<and> (of_char c :: nat) \<le> 122)"

definition ascii_isalnum :: "char \<Rightarrow> bool" where
  "ascii_isalnum c = (is_digit c \<or> is_upper c \<or> is_lower c)"

definition ascii_upper_char :: "char \<Rightarrow> char" where
  "ascii_upper_char c = (if is_lower c then char_of ((of_char c :: nat) - 32) else c)"

definition ascii_upper :: "string \<Rightarrow> string" where
  "ascii_upper s = map ascii_upper_char s"

definition stub_env :: "string \<Rightarrow> unit env" where
  "stub_env ocr_text =
     \<lparr>env_upper = ascii_upper,
      env_isalnum = ascii_isalnum,
      env_image_to_string = (\<lambda>i. Inr ocr_text),
      env_crop = (\<lambda>i z. Inr i),
      env_now = clock 12 0 0,
      env_isoformat = (\<lambda>t. if t = clock 10 0 0 then ''2024-01-01T10:00:00'' else ''2024-01-01T12:00:00''),
      env_fromisoformat = (\<lambda>s. if s = ''2024-01-01T10:00:00'' then Some (clock 10 0 0) else None)\<rparr>"

definition abc123_record :: json where
  "abc123_record =
     JObj [(''number_plate'', JStr ''ABC123''),
           (''entry_time'', JStr ''2024-01-01T10:00:00''),
           (''slot'', JNum 1)]"

definition store_with :: "file_content \<Rightarrow> file_content \<Rightarrow> data_manager" where
  "store_with vehicles history =
     \<lparr>vehicles_file = \<lparr>content = vehicles, writable = True\<rparr>,
      history_file = \<lparr>content = history, writable = True\<rparr>\<rparr>"

definition one_car :: file_content where
  "one_car = Content (JObj [(''vehicles'', JArr [abc123_record])])"

definition no_history :: file_content where
  "no_history = Content (JObj [(''history'', JArr [])])"

definition idle_system :: "data_manager \<Rightarrow> int \<Rightarrow> parking_system" where
  "idle_system dm n =
     \<lparr>total_slots = n, hourly_rate = 10, data_manager = dm,
      entry_gate_processing = False, exit_gate_processing = False, slot_occupied = False\<rparr>"

text \<open>
  A detector with the default zones, threshold and cooldown and both lines at row
  360; a contour of a given area and vertical extent; a frame read at a given time
  with the given contours in the entry zone and none in the exit zone.
\<close>

definition default_handler :: camera_handler where
  "default_handler =
     \<lparr>entry_zone = \<lparr>zone_x1 = 0, zone_y1 = 0, zone_x2 = 640, zone_y2 = 480\<rparr>,
      exit_zone = \<lparr>zone_x1 = 640, zone_y1 = 0, zone_x2 = 1280, zone_y2 = 480\<rparr>,
      motion_threshold = 500,
      entry_virtual_line_y = Some 360,
      exit_virtual_line_y = Some 360,
      last_entry_crossing_time = 0,
      last_exit_crossing_time = 0,
      crossing_cooldown = 3\<rparr>"

definition blob :: "rat \<Rightarrow> int \<Rightarrow> int \<Rightarrow> contour" where
  "blob a y h = \<lparr>contour_area = a, rect_x = 0, rect_y = y, rect_w = 50, rect_h = h\<rparr>"

definition frame_at :: "rat \<Rightarrow> contour list \<Rightarrow> frame" where
  "frame_at t cs =
     \<lparr>ret = True, entry_now = t, entry_contours = cs, entry_cb = Some Returns,
      exit_now = t, exit_contours = [], exit_cb = Some Returns\<rparr>"

text \<open>
  Strings as lists of Unicode code points. \<open>agrees_on_ascii\<close> says of two
  functions that they are \<open>str.upper\<close> and \<open>str.isalnum\<close> on ASCII text: the
  letters \<open>a-z\<close> go to \<open>A-Z\<close>, every other ASCII character stays, and the
  alphanumeric ASCII characters are the digits and the letters.
\<close>

definition is_ascii :: "nat \<Rightarrow> bool" where
  "is_ascii c = (c < 128)"

definition capital_or_digit :: "nat \<Rightarrow> bool" where
  "capital_or_digit c = (48 \<le> c \<and> c \<le> 57 \<or> 65 \<le> c \<and> c \<le> 90)"

definition ascii_upper_code :: "nat \<Rightarrow> nat" where
  "ascii_upper_code c = (if 97 \<le> c \<and> c \<le> 122 then c - 32 else c)"

definition ascii_alnum_code :: "nat \<Rightarrow> bool" where
  "ascii_alnum_code c = (48 \<le> c \<and> c \<le> 57 \<or> 65 \<le> c \<and> c \<le> 90 \<or> 97 \<le> c \<and> c \<le> 122)"

definition agrees_on_ascii :: "(nat list \<Rightarrow> nat list) \<Rightarrow> (nat \<Rightarrow> bool) \<Rightarrow> bool" where
  "agrees_on_ascii str_upper str_isalnum =
     ((\<forall>t. list_all is_ascii t \<longrightarrow> str_upper t = map ascii_upper_code t)
      \<and> (\<forall>c. is_ascii c \<longrightarrow> str_isalnum c = ascii_alnum_code c))"

text \<open>
  \<open>str.upper\<close> and \<open>str.isalnum\<close> on text of code points below 256, as Unicode
  defines them. Beyond ASCII the alphanumeric ones are the ordinal indicators (170,
  186), the superscript digits (178, 179, 185), the micro sign (181), the vulgar
  fractions (188 to 190) and the letters from 192 on (all but the signs 215 and
  247); the small letters from 224 on have their capital 32 below, but the sharp
  s (223) becomes \<open>SS\<close>, the y with diaeresis (255) and the micro sign get their
  capitals outside this range (376, 924), and the ordinal indicators, although
  lower-case letters, have no capital and stay. (Code points from 256 on are not
  covered: they stay and are not alphanumeric here.)
\<close>

definition latin1_isalnum :: "nat \<Rightarrow> bool" where
  "latin1_isalnum c =
     (ascii_alnum_code c \<or> c = 170 \<or> c = 178 \<or> c = 179 \<or> c = 181 \<or> c = 185 \<or> c = 186
      \<or> 188 \<le> c \<and> c \<le> 190
      \<or> 192 \<le> c \<and> c \<le> 255 \<and> c \<noteq> 215 \<and> c \<noteq> 247)"

definition latin1_upper_char :: "nat \<Rightarrow> nat list" where
  "latin1_upper_char c =
     (if 97 \<le> c \<and> c \<le> 122 then [c - 32]
      else if c = 181 then [924]
      else if c = 223 then [83, 83]
      else if c = 255 then [376]
      else if 224 \<le> c \<and> c \<le> 254 \<and> c \<noteq> 247 then [c - 32]
      else [c])"

definition latin1_upper :: "nat list \<Rightarrow> nat list" where
  "latin1_upper t = concat (map latin1_upper_char t)"

section \<open>Properties\<close>

subsection \<open>Fee calculation\<close>

lemma rhe_close: "\<bar>of_int (round_half_even y) - y\<bar> \<le> 1 / 2"
proof -
  have "of_int \<lfloor>y\<rfloor> \<le> y" "y < of_int \<lfloor>y\<rfloor> + 1" by linarith+
  then show ?thesis
    unfolding round_half_even_def Let_def by (simp; linarith)
qed

lemma rhe_le: "y \<le> of_int n \<Longrightarrow> round_half_even y \<le> n"
proof -
  assume a: "y \<le> of_int n"
  have f: "of_int \<lfloor>y\<rfloor> \<le> y" "y < of_int \<lfloor>y\<rfloor> + 1" by linarith+
  have fl: "\<lfloor>y\<rfloor> \<le> n" using a by (simp add: floor_le_iff)
  show ?thesis
  proof (cases "\<lfloor>y\<rfloor> = n")
    case True
    then have "y = of_int n" using a f by simp
    then show ?thesis by (simp add: round_half_even_def)
  next
    case False
    then have "\<lfloor>y\<rfloor> + 1 \<le> n" using fl by simp
    then show ?thesis using fl by (simp add: round_half_even_def Let_def)
  qed
qed

lemma binary_exponent_bounds:
  assumes "0 < x"
  shows "2 powi binary_exponent x \<le> x" and "x < 2 powi (binary_exponent x + 1)"
proof -
  obtain p q where pq: "quotient_of x = (p, q)" by (cases "quotient_of x")
  then have q: "0 < q" and x: "x = of_int p / of_int q"
    using quotient_of_denom_pos quotient_of_div by blast+
  then have p: "0 < p" using assms by (simp add: zero_less_divide_iff)
  let ?bp = "bitlen p" and ?bq = "bitlen q"
  have bp1: "1 \<le> ?bp" and bq1: "1 \<le> ?bq"
    using p q bitlen_eq_zero_iff [of p] bitlen_eq_zero_iff [of q] bitlen_nonneg [of p] bitlen_nonneg [of q]
    by linarith+
  have int_bounds: "(2::rat) powi (bitlen n - 1) \<le> of_int n \<and> of_int n < (2::rat) powi bitlen n"
    if n: "0 < n" for n :: int
  proof -
    have b1: "1 \<le> bitlen n"
      using n bitlen_eq_zero_iff [of n] bitlen_nonneg [of n] by linarith
    from bitlen_bounds [OF n]
    have "(2::int) ^ nat (bitlen n - 1) \<le> n" "n < (2::int) ^ nat (bitlen n)" by blast+
    then have "(of_int ((2::int) ^ nat (bitlen n - 1)) :: rat) \<le> of_int n"
              "(of_int n :: rat) < of_int ((2::int) ^ nat (bitlen n))"
      by (simp_all only: of_int_le_iff of_int_less_iff)
    then have "(2::rat) ^ nat (bitlen n - 1) \<le> of_int n" "of_int n < (2::rat) ^ nat (bitlen n)"
      by simp_all
    then show ?thesis using b1 by (simp add: power_int_def)
  qed
  have pl: "(2::rat) powi (?bp - 1) \<le> of_int p" and pu: "of_int p < (2::rat) powi ?bp"
    using int_bounds [OF p] by blast+
  have ql: "(2::rat) powi (?bq - 1) \<le> of_int q" and qu: "of_int q < (2::rat) powi ?bq"
    using int_bounds [OF q] by blast+
  let ?g = "?bp - ?bq"
  have up: "x < 2 powi (?g + 1)"
  proof -
    have "x < 2 powi ?bp / 2 powi (?bq - 1)"
      unfolding x using pu ql q p
      by (intro frac_less) (auto simp: zero_less_power_int)
    also have "\<dots> = 2 powi (?bp - (?bq - 1))"
      by (rule power_int_diff [symmetric]) simp
    also have "?bp - (?bq - 1) = ?g + 1" by simp
    finally show ?thesis .
  qed
  have lo: "2 powi (?g - 1) \<le> x"
  proof -
    have "2 powi (?bp - 1) / 2 powi ?bq \<le> x"
      unfolding x using pl qu q p
      by (intro frac_le) (auto simp: zero_less_power_int less_imp_le)
    moreover have "(2::rat) powi (?bp - 1) / 2 powi ?bq = 2 powi (?bp - 1 - ?bq)"
      by (rule power_int_diff [symmetric]) simp
    moreover have "?bp - 1 - ?bq = ?g - 1" by simp
    ultimately show ?thesis by (simp only:)
  qed
  have e: "binary_exponent x = (if 2 powi ?g \<le> x then ?g else ?g - 1)"
    by (simp add: binary_exponent_def pq Let_def)
  show "2 powi binary_exponent x \<le> x" using lo by (simp add: e)
  show "x < 2 powi (binary_exponent x + 1)" using up by (auto simp add: e)
qed


lemma round_double_pos:
  "0 < x \<Longrightarrow> round_double x =
     of_int (round_half_even (x / 2 powi (binary_exponent x - 52))) * 2 powi (binary_exponent x - 52)"
  by (simp add: round_double_def Let_def)

lemma round_double_lower:
  assumes "0 < x"
  shows "x * (1 - 1 / 2 ^ 53) \<le> round_double x"
proof -
  let ?e = "binary_exponent x - 52"
  let ?s = "(2::rat) powi ?e"
  let ?y = "x / ?s"
  have s: "0 < ?s" by (simp add: zero_less_power_int)
  have "?s = 2 powi binary_exponent x / 2 powi 52"
    by (rule power_int_diff) simp
  then have s52: "?s * 2 ^ 52 = 2 powi binary_exponent x" by simp
  have "?s * 2 ^ 52 \<le> x" using binary_exponent_bounds(1) [OF assms] by (simp only: s52)
  then have half: "?s / 2 \<le> x / 2 ^ 53" by simp
  have "?y - 1 / 2 \<le> of_int (round_half_even ?y)" using rhe_close [of ?y] by linarith
  then have "(?y - 1 / 2) * ?s \<le> of_int (round_half_even ?y) * ?s"
    using s by (simp only: mult_le_cancel_right_pos)
  moreover have "(?y - 1 / 2) * ?s = x - ?s / 2" using s by (simp add: field_simps)
  ultimately have "x - ?s / 2 \<le> round_double x" by (simp only: round_double_pos [OF assms])
  then show ?thesis using half by (simp add: field_simps)
qed

lemma round_double_le_int:
  assumes "0 < x" and "x \<le> of_int n" and "x < 2 ^ 53"
  shows "round_double x \<le> of_int n"
proof -
  let ?b = "binary_exponent x"
  let ?e = "?b - 52"
  let ?s = "(2::rat) powi ?e"
  have s: "0 < ?s" by (simp add: zero_less_power_int)
  have "?b < 53"
  proof (rule ccontr)
    assume "\<not> ?b < 53"
    then have "(2::rat) powi 53 \<le> 2 powi ?b" by (intro power_int_increasing) simp_all
    then show False using binary_exponent_bounds(1) [OF assms(1)] assms(3) by simp
  qed
  then have e: "?e \<le> 0" by simp
  let ?k = "nat (- ?e)"
  have inv: "?s * 2 ^ ?k = 1"
    using e by (simp add: power_int_def field_simps)
  then have y: "x / ?s = x * 2 ^ ?k" using s by (simp add: field_simps)
  have "x * 2 ^ ?k \<le> of_int (n * 2 ^ ?k)" using assms(2) by simp
  then have "round_half_even (x / ?s) \<le> n * 2 ^ ?k" unfolding y by (rule rhe_le)
  then have "(of_int (round_half_even (x / ?s)) :: rat) \<le> of_int (n * 2 ^ ?k)"
    by (simp only: of_int_le_iff)
  then have "of_int (round_half_even (x / ?s)) * ?s \<le> of_int (n * 2 ^ ?k) * ?s"
    using s by (simp only: mult_le_cancel_right_pos)
  moreover have "of_int (n * 2 ^ ?k) * ?s = of_int n"
  proof -
    have "of_int (n * 2 ^ ?k) * ?s = of_int n * (?s * 2 ^ ?k)" by simp
    then show ?thesis by (simp only: inv mult_1_right)
  qed
  ultimately show ?thesis by (simp only: round_double_pos [OF assms(1)])
qed

lemma hours_ceiling:
  assumes "0 \<le> d" and "d \<le> 3600000000000000"
  shows "\<lceil>round_double (round_double (of_int d / 1000000) / 3600)\<rceil> = \<lceil>(of_int d :: rat) / 3600000000\<rceil>"
proof (cases "d = 0")
  case True
  then show ?thesis by (simp add: round_double_def)
next
  case False
  then have d: "0 < d" using assms(1) by simp
  define k where "k = \<lceil>(of_int d :: rat) / 3600000000\<rceil>"
  let ?x = "(of_int d :: rat) / 1000000"
  let ?S = "round_double ?x"
  let ?y = "?S / 3600"
  let ?H = "round_double ?y"
  have k: "of_int k - 1 < (of_int d :: rat) / 3600000000" "(of_int d :: rat) / 3600000000 \<le> of_int k"
    unfolding k_def by linarith+
  have "(of_int d :: rat) / 3600000000 \<le> 1000000" using assms(2) by simp
  then have kmax: "k \<le> 1000000" unfolding k_def by (simp add: ceiling_le_iff)
  have "(of_int ((k - 1) * 3600000000) :: rat) < of_int d" using k(1) by (simp add: field_simps)
  then have "(k - 1) * 3600000000 < d" by (simp only: of_int_less_iff)
  then have "(k - 1) * 3600000000 + 1 \<le> d" by simp
  then have "(of_int ((k - 1) * 3600000000 + 1) :: rat) \<le> of_int d" by (simp only: of_int_le_iff)
  then have xlow: "3600 * (of_int k - 1) + 1 / 1000000 \<le> ?x" by (simp add: field_simps)
  have x: "0 < ?x" using d by simp
  have xk: "?x \<le> of_int (3600 * k)" using k(2) by (simp add: field_simps)
  have xb: "?x < 2 ^ 53" using assms(2) by simp
  have S: "?S \<le> of_int (3600 * k)" by (rule round_double_le_int [OF x xk xb])
  have Sl: "?x * (1 - 1 / 2 ^ 53) \<le> ?S" by (rule round_double_lower [OF x])
  have Spos: "0 < ?S" using x Sl by (simp add: field_simps)
  have y: "0 < ?y" using Spos by simp
  have yk: "?y \<le> of_int k" using S by simp
  have "(of_int k :: rat) \<le> of_int 1000000" using kmax by (simp only: of_int_le_iff)
  then have kr: "(of_int k :: rat) \<le> 1000000" by simp
  have yb: "?y < 2 ^ 53" using yk kr by simp
  have H: "?H \<le> of_int k" by (rule round_double_le_int [OF y yk yb])
  have Hl: "?y * (1 - 1 / 2 ^ 53) \<le> ?H" by (rule round_double_lower [OF y])
  have "of_int k - 1 < ?H"
    using Hl Sl xlow kr by simp
  then have "\<lceil>?H\<rceil> = k" using H by (intro ceiling_unique) simp_all
  then show ?thesis by (simp only: k_def)
qed


lemma hours_exact:
  assumes "0 \<le> d" and "d \<le> 3600000000000000"
  shows "round_up_hours (round_double (total_seconds d / 3600)) = \<lceil>(of_int d :: rat) / 3600000000\<rceil>"
  using hours_ceiling [OF assms] by (simp only: round_up_hours_def total_seconds_def)

lemma ceil_div_const: "- (- (d::int) div 3600000000) = (d + 3599999999) div 3600000000"
  by linarith

lemma ceil_hours_div: "\<lceil>(of_int d :: rat) / 3600000000\<rceil> = (d + 3599999999) div 3600000000"
proof -
  have "\<lceil>(of_int d :: rat) / of_int 3600000000\<rceil> = - (- d div 3600000000)"
    by (rule ceiling_divide_eq_div)
  then show ?thesis by (simp add: ceil_div_const)
qed

lemma calculate_fee_Some:
  "calculate_fee rate (Some a) (Some b) =
     (if b < a then (0, [Log ERROR ''Exit time is before entry time''])
      else (round_double (of_int (round_up_hours (round_double (total_seconds (b - a) / 3600))) * rate),
            [Log INFO ''Parking duration: {duration}, Hours: {hours:.2f}, Fee: ${fee:.2f}'']))"
  by (simp add: calculate_fee_def Let_def)

lemma calculate_fee_None:
  "calculate_fee rate None b = (0, [Log ERROR ''Invalid entry or exit time''])"
  "calculate_fee rate a None = (0, [Log ERROR ''Invalid entry or exit time''])"
  by (simp_all add: calculate_fee_def split: option.splits)

lemma calculate_fee_bounded:
  assumes "a \<le> b" and "b - a \<le> 3600000000000000"
  shows "calculate_fee rate (Some a) (Some b) =
           (round_double (of_int \<lceil>(of_int (b - a) :: rat) / 3600000000\<rceil> * rate),
            [Log INFO ''Parking duration: {duration}, Hours: {hours:.2f}, Fee: ${fee:.2f}''])"
proof -
  have "0 \<le> b - a" using assms(1) by simp
  from hours_exact [OF this assms(2)] show ?thesis
    using assms(1) by (simp add: calculate_fee_Some)
qed

lemma calculate_fee_hours:
  assumes "a \<le> b" and "b - a \<le> 3600000000000000"
  shows "fst (calculate_fee rate (Some a) (Some b)) =
           round_double (of_int ((b - a + 3599999999) div 3600000000) * rate)"
  by (simp only: calculate_fee_bounded [OF assms] ceil_hours_div fst_conv)

lemma fee_examples:
  "fst (calculate_fee rate (Some (clock 10 0 0)) (Some (clock 10 0 1))) = round_double (1 * rate)"
  "fst (calculate_fee rate (Some (clock 10 0 0)) (Some (clock 11 0 0))) = round_double (1 * rate)"
  "fst (calculate_fee rate (Some (clock 10 0 0)) (Some (clock 11 0 1))) = round_double (2 * rate)"
  by (simp_all add: calculate_fee_hours clock_def)

lemma fee_examples_default:
  "fst (calculate_fee 10 (Some (clock 10 0 0)) (Some (clock 10 0 1))) = 10"
  "fst (calculate_fee 10 (Some (clock 10 0 0)) (Some (clock 11 0 0))) = 10"
  "fst (calculate_fee 10 (Some (clock 10 0 0)) (Some (clock 11 0 1))) = 20"
  by code_simp+

lemma fee_zero_duration: "fst (calculate_fee rate (Some a) (Some a)) = 0"
  by (simp add: calculate_fee_hours round_double_def)

text \<open>
  C2, as amended. With both timestamps present, the exit at or after the entry by
  at most 1,000,000 hours (about 114 years) and an hourly rate of magnitude at most
  \<open>1e300\<close>, the fee is the float product of the hourly rate and the ceiling of
  the duration in hours; that ceiling is the number of started hours,
  \<open>(d + H - 1) div H\<close> for a duration of \<open>d\<close> microseconds and \<open>H\<close>
  microseconds per hour. An exit before the entry, or a missing timestamp, gives
  the fee 0 and one ERROR log line. From 10:00:00 an exit at 10:00:01 is billed one
  hour, at 11:00:00 one hour, at 11:00:01 two hours (10, 10 and 20 at the default
  rate of 10), and a zero duration is billed nothing.
\<close>

theorem calculate_fee_ceil_hours:
  "(a \<le> b \<and> b - a \<le> 3600000000000000 \<and> \<bar>rate\<bar> \<le> 10 ^ 300 \<longrightarrow>
      calculate_fee rate (Some a) (Some b) =
        (round_double (of_int \<lceil>(of_int (b - a) :: rat) / 1000000 / 3600\<rceil> * rate),
         [Log INFO ''Parking duration: {duration}, Hours: {hours:.2f}, Fee: ${fee:.2f}''])
      \<and> \<lceil>(of_int (b - a) :: rat) / 1000000 / 3600\<rceil> = (b - a + 3599999999) div 3600000000)
   \<and> (b < a \<longrightarrow> calculate_fee rate (Some a) (Some b) = (0, [Log ERROR ''Exit time is before entry time'']))
   \<and> calculate_fee rate None (Some b) = (0, [Log ERROR ''Invalid entry or exit time''])
   \<and> calculate_fee rate (Some a) None = (0, [Log ERROR ''Invalid entry or exit time''])
   \<and> calculate_fee rate None None = (0, [Log ERROR ''Invalid entry or exit time''])
   \<and> (\<bar>rate\<bar> \<le> 10 ^ 300 \<longrightarrow>
        fst (calculate_fee rate (Some (clock 10 0 0)) (Some (clock 10 0 1))) = round_double (1 * rate)
        \<and> fst (calculate_fee rate (Some (clock 10 0 0)) (Some (clock 11 0 0))) = round_double (1 * rate)
        \<and> fst (calculate_fee rate (Some (clock 10 0 0)) (Some (clock 11 0 1))) = round_double (2 * rate))
   \<and> fst (calculate_fee 10 (Some (clock 10 0 0)) (Some (clock 10 0 1))) = 10
   \<and> fst (calculate_fee 10 (Some (clock 10 0 0)) (Some (clock 11 0 0))) = 10
   \<and> fst (calculate_fee 10 (Some (clock 10 0 0)) (Some (clock 11 0 1))) = 20
   \<and> fst (calculate_fee rate (Some a) (Some a)) = 0"
proof -
  have e: "(of_int d :: rat) / 1000000 / 3600 = of_int d / 3600000000" for d :: int by simp
  have 1: "a \<le> b \<and> b - a \<le> 3600000000000000 \<and> \<bar>rate\<bar> \<le> 10 ^ 300 \<longrightarrow>
      calculate_fee rate (Some a) (Some b) =
        (round_double (of_int \<lceil>(of_int (b - a) :: rat) / 1000000 / 3600\<rceil> * rate),
         [Log INFO ''Parking duration: {duration}, Hours: {hours:.2f}, Fee: ${fee:.2f}''])
      \<and> \<lceil>(of_int (b - a) :: rat) / 1000000 / 3600\<rceil> = (b - a + 3599999999) div 3600000000"
    unfolding e using calculate_fee_bounded [of a b rate] ceil_hours_div [of "b - a"] by blast
  have 2: "b < a \<longrightarrow> calculate_fee rate (Some a) (Some b) = (0, [Log ERROR ''Exit time is before entry time''])"
    by (simp add: calculate_fee_Some)
  have 3: "\<bar>rate\<bar> \<le> 10 ^ 300 \<longrightarrow>
        fst (calculate_fee rate (Some (clock 10 0 0)) (Some (clock 10 0 1))) = round_double (1 * rate)
        \<and> fst (calculate_fee rate (Some (clock 10 0 0)) (Some (clock 11 0 0))) = round_double (1 * rate)
        \<and> fst (calculate_fee rate (Some (clock 10 0 0)) (Some (clock 11 0 1))) = round_double (2 * rate)"
    by (intro impI conjI fee_examples)
  show ?thesis
    by (intro conjI 1 2 3 calculate_fee_None fee_examples_default fee_zero_duration)
qed

theorem calculate_fee_ceil_hours_witness:
  "clock 10 0 0 \<le> clock 11 0 1 \<and> clock 11 0 1 - clock 10 0 0 \<le> 3600000000000000
   \<and> \<bar>10 :: rat\<bar> \<le> 10 ^ 300
   \<and> calculate_fee 10 (Some (clock 10 0 0)) (Some (clock 11 0 1)) =
       (20, [Log INFO ''Parking duration: {duration}, Hours: {hours:.2f}, Fee: ${fee:.2f}''])
   \<and> fst (calculate_fee 10 (Some (clock 10 0 0)) (Some (clock 10 0 1))) = round_double (1 * 10)
   \<and> clock 10 0 0 < clock 11 0 1
   \<and> calculate_fee 10 (Some (clock 11 0 1)) (Some (clock 10 0 0)) =
       (0, [Log ERROR ''Exit time is before entry time''])"
proof -
  have r: "\<bar>10 :: rat\<bar> \<le> 10 ^ 300" by simp
  have h: "clock 10 0 0 \<le> clock 11 0 1 \<and> clock 11 0 1 - clock 10 0 0 \<le> 3600000000000000
             \<and> \<bar>10 :: rat\<bar> \<le> 10 ^ 300"
          "clock 10 0 0 < clock 11 0 1"
    using r by (simp_all add: clock_def)
  have v: "round_double (of_int \<lceil>(of_int (clock 11 0 1 - clock 10 0 0) :: rat) / 1000000 / 3600\<rceil> * 10) = 20"
    by code_simp
  note T = calculate_fee_ceil_hours [of "clock 10 0 0" "clock 11 0 1" 10]
  note U = calculate_fee_ceil_hours [of "clock 11 0 1" "clock 10 0 0" 10]
  have a: "calculate_fee 10 (Some (clock 10 0 0)) (Some (clock 11 0 1)) =
       (20, [Log INFO ''Parking duration: {duration}, Hours: {hours:.2f}, Fee: ${fee:.2f}''])"
    using T [THEN conjunct1, THEN mp, OF h(1), THEN conjunct1] by (simp only: v)
  have b: "calculate_fee 10 (Some (clock 11 0 1)) (Some (clock 10 0 0)) =
       (0, [Log ERROR ''Exit time is before entry time''])"
    by (rule U [THEN conjunct2, THEN conjunct1, THEN mp, OF h(2)])
  have c: "fst (calculate_fee 10 (Some (clock 10 0 0)) (Some (clock 10 0 1))) = round_double (1 * 10)"
    by (rule T [THEN conjunct2, THEN conjunct2, THEN conjunct2, THEN conjunct2, THEN conjunct2,
                THEN conjunct1, THEN mp, OF r, THEN conjunct1])
  show ?thesis using h a b c by blast
qed

text \<open>
  A stay of 4772186 hours and one microsecond (from 1000-01-01 00:00:00 to
  1544-05-30 02:00:00.000001, say) at the rate 10: the division by \<open>10 ** 6\<close>
  rounds the microsecond away, 4772186 hours are billed, and the ceiling of the
  duration in hours is 4772187.
\<close>

theorem calculate_fee_long_stay_counterexample:
  "(0::int) \<le> 17179869600000001
   \<and> fst (calculate_fee 10 (Some 0) (Some 17179869600000001)) = 47721860
   \<and> of_int \<lceil>(of_int (17179869600000001 - 0) :: rat) / 1000000 / 3600\<rceil> * (10::rat) = 47721870"
  by code_simp

subsection \<open>Plate text\<close>

lemma clean_alnum: "list_all alnum (clean_number_plate_text up alnum t)"
  by (simp add: clean_number_plate_text_def Let_def list_all_iff)

lemma clean_length:
  "clean_number_plate_text up alnum t \<noteq> [] \<Longrightarrow>
     3 \<le> length (clean_number_plate_text up alnum t)
     \<and> length (clean_number_plate_text up alnum t) \<le> 10
     \<and> clean_number_plate_text up alnum t = filter alnum (up t)"
  by (auto simp: clean_number_plate_text_def Let_def split: if_splits)

lemma extract_number_plate_Some:
  "fst (extract_number_plate up alnum ocr img) = Some p \<Longrightarrow>
     \<exists>i t. img = Some i \<and> ocr i = Inr t \<and> p = clean_number_plate_text up alnum t \<and> p \<noteq> []"
  by (auto simp: extract_number_plate_def Let_def split: option.splits sum.splits if_splits)

lemma ascii_upper_code_ascii: "is_ascii c \<Longrightarrow> is_ascii (ascii_upper_code c)"
  by (auto simp: is_ascii_def ascii_upper_code_def)

lemma ascii_capital_or_digit:
  "ascii_alnum_code (ascii_upper_code c) \<Longrightarrow> capital_or_digit (ascii_upper_code c)"
  by (auto simp: ascii_alnum_code_def ascii_upper_code_def capital_or_digit_def)

lemma ascii_text_clean:
  assumes tables: "agrees_on_ascii up alnum" and ascii: "list_all is_ascii t"
  shows "list_all capital_or_digit (clean_number_plate_text up alnum t)"
proof -
  have u: "up t = map ascii_upper_code t" using tables ascii by (simp add: agrees_on_ascii_def)
  have a: "alnum c = ascii_alnum_code c" if "is_ascii c" for c
    using tables that by (simp add: agrees_on_ascii_def)
  have "list_all capital_or_digit (filter alnum (map ascii_upper_code t))"
    using ascii
    by (induction t) (auto simp: a ascii_upper_code_ascii dest: ascii_capital_or_digit)
  then show ?thesis by (simp add: clean_number_plate_text_def Let_def u)
qed

lemma latin1_upper_ascii: "list_all is_ascii t \<Longrightarrow> latin1_upper t = map ascii_upper_code t"
  by (induction t) (auto simp: latin1_upper_def latin1_upper_char_def ascii_upper_code_def is_ascii_def)

lemma latin1_agrees: "agrees_on_ascii latin1_upper latin1_isalnum"
  by (auto simp: agrees_on_ascii_def latin1_upper_ascii latin1_isalnum_def is_ascii_def)

text \<open>
  C9, as amended. For every string, \<open>_clean_number_plate_text\<close> returns the
  alphanumeric characters of the upper-cased string when there are between 3 and
  10 of them, and the empty string otherwise; so a plate returned by
  \<open>extract_number_plate\<close> has between 3 and 10 characters, all alphanumeric, and
  is the alphanumeric part of the upper-cased OCR text. For ASCII text these
  characters are digits and capital letters.
\<close>

theorem clean_number_plate_text_valid:
  "clean_number_plate_text up alnum t =
     (if 3 \<le> length (filter alnum (up t)) \<and> length (filter alnum (up t)) \<le> 10
      then filter alnum (up t) else [])
   \<and> (fst (extract_number_plate up alnum ocr img) = Some p \<longrightarrow>
        3 \<le> length p \<and> length p \<le> 10 \<and> list_all alnum p
        \<and> (\<exists>i t'. img = Some i \<and> ocr i = Inr t' \<and> p = filter alnum (up t')))
   \<and> (agrees_on_ascii up alnum \<and> list_all is_ascii t \<longrightarrow>
        list_all capital_or_digit (clean_number_plate_text up alnum t))"
proof (intro conjI impI)
  show "clean_number_plate_text up alnum t =
     (if 3 \<le> length (filter alnum (up t)) \<and> length (filter alnum (up t)) \<le> 10
      then filter alnum (up t) else [])"
    by (simp add: clean_number_plate_text_def Let_def)
next
  assume "fst (extract_number_plate up alnum ocr img) = Some p"
  then obtain i t' where p: "img = Some i" "ocr i = Inr t'"
      "p = clean_number_plate_text up alnum t'" "p \<noteq> []"
    using extract_number_plate_Some by blast
  note c = clean_length [of up alnum t'] clean_alnum [of alnum up t']
  show "3 \<le> length p" "length p \<le> 10" "list_all alnum p" using p c by auto
  show "\<exists>i t'. img = Some i \<and> ocr i = Inr t' \<and> p = filter alnum (up t')" using p c by auto
next
  assume "agrees_on_ascii up alnum \<and> list_all is_ascii t"
  then show "list_all capital_or_digit (clean_number_plate_text up alnum t)"
    using ascii_text_clean by blast
qed

theorem clean_number_plate_text_valid_witness:
  "agrees_on_ascii latin1_upper latin1_isalnum
   \<and> list_all is_ascii [97, 98, 45, 49, 50, 51, 32]
   \<and> fst (extract_number_plate latin1_upper latin1_isalnum
            (\<lambda>i::unit. Inr [97, 98, 45, 49, 50, 51, 32]) (Some ())) = Some [65, 66, 49, 50, 51]
   \<and> list_all latin1_isalnum [65, 66, 49, 50, 51]
   \<and> list_all capital_or_digit (clean_number_plate_text latin1_upper latin1_isalnum [97, 98, 45, 49, 50, 51, 32])"
proof -
  let ?t = "[97, 98, 45, 49, 50, 51, 32] :: nat list"
  have a: "list_all is_ascii ?t" by code_simp
  have e: "fst (extract_number_plate latin1_upper latin1_isalnum (\<lambda>i::unit. Inr ?t) (Some ()))
             = Some [65, 66, 49, 50, 51]"
    by code_simp
  note T = clean_number_plate_text_valid
             [of latin1_upper latin1_isalnum ?t "\<lambda>i::unit. Inr ?t" "Some ()" "[65, 66, 49, 50, 51]"]
  have b: "list_all latin1_isalnum [65, 66, 49, 50, 51]"
    using T [THEN conjunct2, THEN conjunct1, THEN mp, OF e] by blast
  have c: "list_all capital_or_digit (clean_number_plate_text latin1_upper latin1_isalnum ?t)"
    by (rule T [THEN conjunct2, THEN conjunct2, THEN mp, OF conjI [OF latin1_agrees a]])
  show ?thesis by (intro conjI latin1_agrees a e b c)
qed

text \<open>
  The text of the feminine ordinal indicator, superscript two and superscript
  three is returned as it is: three alphanumeric characters, none of them a
  capital letter or a digit, the first a lower-case letter with no capital. (An
  e with acute accent is kept as its capital, a sharp s becomes \<open>SS\<close>.)
\<close>

theorem non_ascii_plate_counterexample:
  "clean_number_plate_text latin1_upper latin1_isalnum [170, 178, 179] = [170, 178, 179]
   \<and> fst (extract_number_plate latin1_upper latin1_isalnum (\<lambda>i::unit. Inr [170, 178, 179]) (Some ()))
       = Some [170, 178, 179]
   \<and> \<not> list_all capital_or_digit [170, 178, 179]
   \<and> clean_number_plate_text latin1_upper latin1_isalnum [65, 66, 233] = [65, 66, 201]
   \<and> clean_number_plate_text latin1_upper latin1_isalnum [223, 49] = [83, 83, 49]"
  by code_simp

subsection \<open>Available slots when the store cannot be read\<close>








subsection \<open>Configuration\<close>

lemma load_config_fallback:
  "c = Missing \<or> c = Malformed \<or> c = Unreadable \<Longrightarrow> fst (load_config c) = DEFAULT_CONFIG"
  by (auto simp: load_config_def)

lemma config_fallback_init:
  "c = Missing \<or> c = Malformed \<or> c = Unreadable \<Longrightarrow>
     fst (camera_handler_init True c) = fst (camera_handler_init False c)"
  by (auto simp: load_config_def camera_handler_init_def DEFAULT_CONFIG_def)

text \<open>
  C8. An absent or unparseable file gives the defaults (the two lemmas above), but a
  file that parses is returned as it is: for the JSON object with no keys
  \<open>load_config\<close> returns that object, not the defaults, and the construction of
  the camera handler raises KeyError at \<open>config["entry_zone"]\<close>; for a JSON list
  it raises TypeError.
\<close>

theorem config_missing_keys_fails:
  "load_config (Content (JObj [])) =
     (JObj [], [Log INFO ''Configuration loaded from {self.config_file}''])
   \<and> fst (camera_handler_init True (Content (JObj []))) = Inl KeyError
   \<and> fst (camera_handler_init True (Content (JArr []))) = Inl TypeError"
  by (simp add: load_config_def camera_handler_init_def)

subsection \<open>Persistence failures and the gates\<close>

text \<open>
  C5. On exit the results of \<open>add_history_record\<close> and \<open>remove_vehicle_entry\<close>
  are not looked at. With a history file that holds a JSON list instead of an
  object, the history record cannot be added (the call returns False and the file
  stays as it was), and the handler still removes the active record and sends
  \<open>OPEN_EXIT_GATE\<close>.
\<close>

theorem exit_gate_opens_after_failed_history:
  "fst (add_history_record (env_isoformat (stub_env ''ABC123''))
          (store_with one_car (Content (JArr []))) ''ABC123'' (clock 10 0 0) (clock 12 0 0) 20 (JNum 1)) = False
   \<and> sent (snd (snd (handle_exit_virtual_line (stub_env ''ABC123'')
          (idle_system (store_with one_car (Content (JArr []))) 1) () ()))) = [''OPEN_EXIT_GATE'']
   \<and> history_file (data_manager (fst (snd (handle_exit_virtual_line (stub_env ''ABC123'')
          (idle_system (store_with one_car (Content (JArr []))) 1) () ()))))
       = \<lparr>content = Content (JArr []), writable = True\<rparr>
   \<and> active_records (data_manager (fst (snd (handle_exit_virtual_line (stub_env ''ABC123'')
          (idle_system (store_with one_car (Content (JArr []))) 1) () ())))) = []"
  by code_simp

subsection \<open>The full lot\<close>

lemma sent_append: "sent (a @ b) = sent a @ sent b"
  by (induction a rule: sent.induct) auto

lemma logs_silent: "list_all is_log evs \<Longrightarrow> sent evs = [] \<and> Ocr \<notin> set evs"
  by (induction evs rule: sent.induct) auto

lemma read_json_logs: "list_all is_log (snd (read_json f))"
  by (simp add: read_json_def split: file_content.splits)

lemma get_available_slots_logs: "list_all is_log (snd (get_available_slots dm n))"
  using read_json_logs [of "vehicles_file dm"]
  by (simp add: get_available_slots_def split_beta split: sum.splits)

lemma is_parking_full_logs: "list_all is_log (snd (is_parking_full dm n))"
  using get_available_slots_logs [of dm n]
  by (simp add: is_parking_full_def split_beta)

lemma entry_starts:
  "\<not> entry_gate_processing s \<Longrightarrow>
     \<exists>evs. snd (handle_entry_virtual_line env s fr zi) =
              Log INFO ''Vehicle detected crossing entry virtual line'' # evs"
  by (simp add: handle_entry_virtual_line_def Let_def split_beta split: option.splits list.splits)

lemma exit_starts:
  "\<not> exit_gate_processing s \<Longrightarrow>
     \<exists>evs. snd (snd (handle_exit_virtual_line env s fr zi)) =
              Log INFO ''Vehicle detected crossing exit virtual line'' # evs"
  by (simp add: handle_exit_virtual_line_def Let_def split_beta split: option.splits sum.splits)

text \<open>
  C7. When an entry crossing is taken up (the flag is clear) and the store reports
  the lot full or the hardware flag is set, the handler sends \<open>BUZZER_ON\<close>, sleeps
  3 seconds, sends \<open>BUZZER_OFF\<close> and returns with the flag clear again and the
  rest of the state, the store included, as it was: these are the only commands,
  no gate is opened and the OCR engine is not called.
\<close>

theorem parking_full_buzzer:
  assumes idle: "\<not> entry_gate_processing s"
      and full: "fst (is_parking_full (data_manager s) (total_slots s)) \<or> slot_occupied s"
  shows "handle_entry_virtual_line env s fr zone_image =
           (s, Log INFO ''Vehicle detected crossing entry virtual line'' #
               snd (is_parking_full (data_manager s) (total_slots s)) @
               [Log WARNING ''Parking is full! Activating buzzer...'',
                Send ''BUZZER_ON'', Sleep 3, Send ''BUZZER_OFF''])
         \<and> sent (snd (handle_entry_virtual_line env s fr zone_image)) = [''BUZZER_ON'', ''BUZZER_OFF'']
         \<and> Ocr \<notin> set (snd (handle_entry_virtual_line env s fr zone_image))"
proof -
  have eq: "handle_entry_virtual_line env s fr zone_image =
           (s, Log INFO ''Vehicle detected crossing entry virtual line'' #
               snd (is_parking_full (data_manager s) (total_slots s)) @
               [Log WARNING ''Parking is full! Activating buzzer...'',
                Send ''BUZZER_ON'', Sleep 3, Send ''BUZZER_OFF''])"
    using idle full
    by (auto simp add: handle_entry_virtual_line_def Let_def split_beta)
  have silent: "sent (snd (is_parking_full (data_manager s) (total_slots s))) = []"
               "Ocr \<notin> set (snd (is_parking_full (data_manager s) (total_slots s)))"
    using logs_silent [OF is_parking_full_logs] by auto
  show ?thesis
    by (simp add: eq sent_append silent)
qed

theorem parking_full_buzzer_witness:
  "\<not> entry_gate_processing (idle_system (store_with one_car no_history) 1)
   \<and> fst (is_parking_full (store_with one_car no_history) 1)
   \<and> handle_entry_virtual_line (stub_env ''XYZ999'') (idle_system (store_with one_car no_history) 1) () () =
       (idle_system (store_with one_car no_history) 1,
        [Log INFO ''Vehicle detected crossing entry virtual line'',
         Log WARNING ''Parking is full! Activating buzzer...'',
         Send ''BUZZER_ON'', Sleep 3, Send ''BUZZER_OFF''])"
proof -
  have f: "is_parking_full (store_with one_car no_history) 1 = (True, [])"
    by code_simp
  have i: "\<not> entry_gate_processing (idle_system (store_with one_car no_history) 1)"
          "data_manager (idle_system (store_with one_car no_history) 1) = store_with one_car no_history"
          "total_slots (idle_system (store_with one_car no_history) 1) = 1"
    by (simp_all add: idle_system_def)
  show ?thesis
    using parking_full_buzzer [of "idle_system (store_with one_car no_history) 1" "stub_env ''XYZ999''" "()" "()"]
    by (simp add: f i)
qed

subsection \<open>Virtual line crossing\<close>

lemma first_crossing_find:
  "first_crossing thr row cs = spec_first_crossing thr row cs"
  by (induction cs) (auto simp: spec_first_crossing_def straddles_def Let_def)

lemma check_elapsed:
  assumes "virtual_line_of h z = Some vy"
      and "\<not> t - last_crossing_of h z < crossing_cooldown h"
  shows "check_virtual_line_crossing h t cs z cb =
           Inr (case first_crossing (motion_threshold h) (vy - zone_top_of h z) cs of
                  None \<Rightarrow> (h, [])
                | Some c \<Rightarrow>
                    (case z of
                       ENTRY \<Rightarrow> h\<lparr>last_entry_crossing_time := t\<rparr>
                     | EXIT \<Rightarrow> h\<lparr>last_exit_crossing_time := t\<rparr>,
                     Log INFO ''Vehicle detected crossing {zone.value} virtual line'' #
                     (case cb of
                        None \<Rightarrow> []
                      | Some Returns \<Rightarrow> [Callback z]
                      | Some (Raises e) \<Rightarrow>
                          [Callback z, Log ERROR ''Error in {zone.value} callback: {e}''])))"
  using assms
  by (cases z)
     (auto simp add: check_virtual_line_crossing_def virtual_line_of_def last_crossing_of_def
        zone_top_of_def Let_def split: option.splits callback.splits)

lemma find_None_list_ex: "(List.find P xs = None) = (\<not> list_ex P xs)"
  by (induction xs) auto

lemma callbacks_simps:
  "callbacks z [] = 0"
  "callbacks z (Log l m # evs) = callbacks z evs"
  "callbacks z (Callback z' # evs) = (if z' = z then Suc (callbacks z evs) else callbacks z evs)"
  by (simp_all add: callbacks_def)

lemma callback_events_count:
  "callbacks z (case cb of
        None \<Rightarrow> []
      | Some Returns \<Rightarrow> [Callback z]
      | Some (Raises e) \<Rightarrow> [Callback z, Log ERROR ''Error in {zone.value} callback: {e}''])
   = (if cb = None then 0 else 1)"
proof (cases cb)
  case None
  then show ?thesis by (simp add: callbacks_simps)
next
  case (Some r)
  then show ?thesis by (cases r) (simp_all add: callbacks_simps)
qed

text \<open>
  C3. Once the cooldown has elapsed (and the line position is known), the check
  is decided by the first contour, in the finder's order, whose area is at least
  the motion threshold and whose vertical extent contains the zone-relative
  trigger row. If there is none (in particular when every contour is too small or
  lies entirely above or entirely below the row) nothing happens. If there is
  one, the crossing is declared once: the zone's time is recorded, one line is
  logged and the callback, when one is registered, is invoked exactly once,
  whatever contours follow.
\<close>

theorem crossing_iff_first_straddling_contour:
  assumes line: "virtual_line_of h z = Some vy"
      and elapsed: "\<not> t - last_crossing_of h z < crossing_cooldown h"
  shows "check_virtual_line_crossing h t cs z cb =
           Inr (case spec_first_crossing (motion_threshold h) (vy - zone_top_of h z) cs of
                  None \<Rightarrow> (h, [])
                | Some c \<Rightarrow>
                    (case z of
                       ENTRY \<Rightarrow> h\<lparr>last_entry_crossing_time := t\<rparr>
                     | EXIT \<Rightarrow> h\<lparr>last_exit_crossing_time := t\<rparr>,
                     Log INFO ''Vehicle detected crossing {zone.value} virtual line'' #
                     (case cb of
                        None \<Rightarrow> []
                      | Some Returns \<Rightarrow> [Callback z]
                      | Some (Raises e) \<Rightarrow>
                          [Callback z, Log ERROR ''Error in {zone.value} callback: {e}''])))
       \<and> crossing_declared (check_virtual_line_crossing h t cs z cb)
           = list_ex (straddles (motion_threshold h) (vy - zone_top_of h z)) cs
       \<and> callbacks_fired (check_virtual_line_crossing h t cs z cb) z
           = (if cb \<noteq> None \<and> list_ex (straddles (motion_threshold h) (vy - zone_top_of h z)) cs
              then 1 else 0)
       \<and> (list_all (\<lambda>c. contour_area c < motion_threshold h
                       \<or> rect_y c + rect_h c < vy - zone_top_of h z
                       \<or> vy - zone_top_of h z < rect_y c) cs
            \<longrightarrow> check_virtual_line_crossing h t cs z cb = Inr (h, []))
       \<and> (spec_first_crossing (motion_threshold h) (vy - zone_top_of h z) cs = Some c
            \<longrightarrow> straddles (motion_threshold h) (vy - zone_top_of h z) c
                \<and> (\<exists>before after. cs = before @ c # after
                      \<and> \<not> list_ex (straddles (motion_threshold h) (vy - zone_top_of h z)) before))"
proof -
  let ?thr = "motion_threshold h" and ?row = "vy - zone_top_of h z"
  note eq0 = check_elapsed [OF line elapsed]
  have f: "first_crossing ?thr ?row cs = List.find (straddles ?thr ?row) cs" for cs
    by (simp add: first_crossing_find spec_first_crossing_def)
  have eq: "check_virtual_line_crossing h t cs z cb =
           Inr (case spec_first_crossing ?thr ?row cs of
                  None \<Rightarrow> (h, [])
                | Some c \<Rightarrow>
                    (case z of
                       ENTRY \<Rightarrow> h\<lparr>last_entry_crossing_time := t\<rparr>
                     | EXIT \<Rightarrow> h\<lparr>last_exit_crossing_time := t\<rparr>,
                     Log INFO ''Vehicle detected crossing {zone.value} virtual line'' #
                     (case cb of
                        None \<Rightarrow> []
                      | Some Returns \<Rightarrow> [Callback z]
                      | Some (Raises e) \<Rightarrow>
                          [Callback z, Log ERROR ''Error in {zone.value} callback: {e}''])))"
    by (simp only: eq0 first_crossing_find)
  have d: "crossing_declared (check_virtual_line_crossing h t cs z cb) = list_ex (straddles ?thr ?row) cs"
    using find_None_list_ex [of "straddles ?thr ?row" cs]
    by (cases "List.find (straddles ?thr ?row) cs") (simp_all add: eq0 f crossing_declared_def)
  have c: "callbacks_fired (check_virtual_line_crossing h t cs z cb) z
             = (if cb \<noteq> None \<and> list_ex (straddles ?thr ?row) cs then 1 else 0)"
  proof (cases "List.find (straddles ?thr ?row) cs")
    case None
    then show ?thesis
      using find_None_list_ex [of "straddles ?thr ?row" cs]
      by (simp add: eq0 f callbacks_fired_def callbacks_simps)
  next
    case found: (Some c0)
    then have ex: "list_ex (straddles ?thr ?row) cs"
      using find_None_list_ex [of "straddles ?thr ?row" cs] by simp
    have "callbacks_fired (check_virtual_line_crossing h t cs z cb) z =
            callbacks z (case cb of
                None \<Rightarrow> []
              | Some Returns \<Rightarrow> [Callback z]
              | Some (Raises e) \<Rightarrow> [Callback z, Log ERROR ''Error in {zone.value} callback: {e}''])"
      by (simp add: eq0 f found callbacks_fired_def callbacks_simps)
    then show ?thesis using ex by (simp only: callback_events_count) simp
  qed
  have n: "list_all (\<lambda>c. contour_area c < ?thr \<or> rect_y c + rect_h c < ?row \<or> ?row < rect_y c) cs
            \<longrightarrow> check_virtual_line_crossing h t cs z cb = Inr (h, [])"
  proof
    assume a: "list_all (\<lambda>c. contour_area c < ?thr \<or> rect_y c + rect_h c < ?row \<or> ?row < rect_y c) cs"
    have "\<not> list_ex (straddles ?thr ?row) cs"
      using a by (induction cs) (auto simp: straddles_def)
    then have "List.find (straddles ?thr ?row) cs = None"
      by (simp add: find_None_list_ex)
    then show "check_virtual_line_crossing h t cs z cb = Inr (h, [])"
      by (simp add: eq0 f)
  qed
  have o: "spec_first_crossing ?thr ?row cs = Some c
            \<longrightarrow> straddles ?thr ?row c
                \<and> (\<exists>before after. cs = before @ c # after \<and> \<not> list_ex (straddles ?thr ?row) before)"
  proof
    assume "spec_first_crossing ?thr ?row cs = Some c"
    then have "List.find (straddles ?thr ?row) cs = Some c" by (simp add: spec_first_crossing_def)
    then obtain i where i: "i < length cs" "straddles ?thr ?row (cs ! i)" "c = cs ! i"
        "\<forall>j<i. \<not> straddles ?thr ?row (cs ! j)"
      by (auto simp: find_Some_iff)
    have split: "cs = take i cs @ c # drop (Suc i) cs"
      using i(1,3) by (simp add: id_take_nth_drop)
    have "\<not> list_ex (straddles ?thr ?row) (take i cs)"
      using i(1,4) by (auto simp: list_ex_iff in_set_conv_nth)
    then show "straddles ?thr ?row c
                \<and> (\<exists>before after. cs = before @ c # after \<and> \<not> list_ex (straddles ?thr ?row) before)"
      using i(2,3) split by blast
  qed
  show ?thesis using eq d c n o by blast
qed

theorem crossing_iff_first_straddling_contour_witness:
  "virtual_line_of default_handler ENTRY = Some 360
   \<and> \<not> 100 - last_crossing_of default_handler ENTRY < crossing_cooldown default_handler
   \<and> check_virtual_line_crossing default_handler 100
        [blob 100 300 100, blob 900 0 100, blob 600 300 100, blob 700 350 20] ENTRY (Some Returns)
        = Inr (default_handler\<lparr>last_entry_crossing_time := 100\<rparr>,
               [Log INFO ''Vehicle detected crossing {zone.value} virtual line'', Callback ENTRY])
   \<and> spec_first_crossing 500 360 [blob 100 300 100, blob 900 0 100, blob 600 300 100, blob 700 350 20]
        = Some (blob 600 300 100)
   \<and> callbacks_fired (check_virtual_line_crossing default_handler 100
        [blob 100 300 100, blob 900 0 100, blob 600 300 100, blob 700 350 20] ENTRY (Some Returns)) ENTRY = 1
   \<and> check_virtual_line_crossing default_handler 100
        [blob 100 300 100, blob 900 0 100, blob 900 400 50] ENTRY (Some Returns)
        = Inr (default_handler, [])"
proof -
  let ?cs = "[blob 100 300 100, blob 900 0 100, blob 600 300 100, blob 700 350 20]"
  have l: "virtual_line_of default_handler ENTRY = Some 360"
    by (simp add: virtual_line_of_def default_handler_def)
  have e: "\<not> 100 - last_crossing_of default_handler ENTRY < crossing_cooldown default_handler"
    by (simp add: last_crossing_of_def default_handler_def)
  have p: "motion_threshold default_handler = 500" "360 - zone_top_of default_handler ENTRY = 360"
    by (simp_all add: zone_top_of_def default_handler_def)
  have s: "spec_first_crossing 500 360 ?cs = Some (blob 600 300 100)"
    by (simp add: spec_first_crossing_def straddles_def blob_def)
  have x: "list_ex (straddles 500 360) ?cs"
    by (simp add: straddles_def blob_def)
  have no: "list_all (\<lambda>c. contour_area c < 500 \<or> rect_y c + rect_h c < 360 \<or> 360 < rect_y c)
              [blob 100 300 100, blob 900 0 100, blob 900 400 50]"
    by (simp add: blob_def)
  note T = crossing_iff_first_straddling_contour [OF l e, of ?cs "Some Returns", unfolded p]
  note U = crossing_iff_first_straddling_contour
             [OF l e, of "[blob 100 300 100, blob 900 0 100, blob 900 400 50]" "Some Returns", unfolded p]
  have a: "check_virtual_line_crossing default_handler 100 ?cs ENTRY (Some Returns)
        = Inr (default_handler\<lparr>last_entry_crossing_time := 100\<rparr>,
               [Log INFO ''Vehicle detected crossing {zone.value} virtual line'', Callback ENTRY])"
    using T [THEN conjunct1] by (simp add: s)
  have b: "callbacks_fired (check_virtual_line_crossing default_handler 100 ?cs ENTRY (Some Returns)) ENTRY = 1"
    using T [THEN conjunct2, THEN conjunct2, THEN conjunct1] x by simp
  have c: "check_virtual_line_crossing default_handler 100
        [blob 100 300 100, blob 900 0 100, blob 900 400 50] ENTRY (Some Returns) = Inr (default_handler, [])"
    by (rule U [THEN conjunct2, THEN conjunct2, THEN conjunct2, THEN conjunct1, THEN mp, OF no])
  show ?thesis by (intro conjI l e a s b c)
qed

subsection \<open>Cooldown\<close>

lemma check_step:
  assumes "check_virtual_line_crossing h t cs z' cb = Inr (h', evs)"
  shows "crossing_cooldown h' = crossing_cooldown h"
    and "evs \<noteq> [] \<Longrightarrow> last_crossing_of h' z' = t \<and> crossing_cooldown h \<le> t - last_crossing_of h z'"
    and "evs = [] \<Longrightarrow> h' = h"
    and "z \<noteq> z' \<Longrightarrow> last_crossing_of h' z = last_crossing_of h z"
  using assms
  by (cases z'; cases z;
      auto simp add: check_virtual_line_crossing_def last_crossing_of_def Let_def
           split: option.splits if_splits)+

lemma check_suppressed:
  assumes "t - last_crossing_of h z < crossing_cooldown h"
  shows "check_virtual_line_crossing h t cs z cb =
           (case virtual_line_of h z of None \<Rightarrow> Inl TypeError | Some vy \<Rightarrow> Inr (h, []))"
  using assms
  by (cases z)
     (auto simp add: check_virtual_line_crossing_def last_crossing_of_def virtual_line_of_def Let_def
           split: option.splits)

lemma check_callbacks:
  assumes "check_virtual_line_crossing h t cs z' cb = Inr (h', evs)"
  shows "callbacks z evs \<le> (if z' = z \<and> evs \<noteq> [] then 1 else 0)"
proof (cases "evs = []")
  case True
  then show ?thesis by (simp add: callbacks_def)
next
  case False
  then obtain c where
    evs: "evs = Log INFO ''Vehicle detected crossing {zone.value} virtual line'' #
            (case cb of
               None \<Rightarrow> []
             | Some Returns \<Rightarrow> [Callback z']
             | Some (Raises e) \<Rightarrow> [Callback z', Log ERROR ''Error in {zone.value} callback: {e}''])"
    using assms
    by (auto simp add: check_virtual_line_crossing_def Let_def split_beta
             split: option.splits if_splits)
  have "callbacks z evs \<le> (if z' = z then 1 else 0)"
  proof (cases cb)
    case None
    then show ?thesis by (simp add: evs callbacks_def)
  next
    case (Some r)
    then show ?thesis by (cases r) (simp_all add: evs callbacks_def)
  qed
  then show ?thesis using False by simp
qed

lemma crossing_times_simps:
  "crossing_times z [] = []"
  "crossing_times z ((z', t, evs) # run) =
     (if z' = z \<and> evs \<noteq> [] then t # crossing_times z run else crossing_times z run)"
  by (simp_all add: crossing_times_def)

lemma callback_times_simps:
  "callback_times z [] = []"
  "callback_times z ((z', t, evs) # run) = replicate (callbacks z evs) t @ callback_times z run"
  by (simp_all add: callback_times_def)

lemma run_chain:
  "successively (\<lambda>a b. crossing_cooldown h \<le> b - a)
     (last_crossing_of h z # crossing_times z (process_frames h frs))"
proof (induction frs arbitrary: h)
  case Nil
  show ?case by (simp add: crossing_times_simps)
next
  case (Cons fr frs)
  show ?case
  proof (cases "ret fr")
    case False
    then show ?thesis using Cons.IH [of h] by simp
  next
    case True
    show ?thesis
    proof (cases "check_virtual_line_crossing h (entry_now fr) (entry_contours fr) ENTRY (entry_cb fr)")
      case (Inl e)
      then show ?thesis using True by (simp add: crossing_times_simps)
    next
      case (Inr r1)
      obtain h1 evs1 where r1: "r1 = (h1, evs1)" by (cases r1)
      note c1 = Inr [unfolded r1]
      note s1 = check_step [OF c1]
      show ?thesis
      proof (cases "check_virtual_line_crossing h1 (exit_now fr) (exit_contours fr) EXIT (exit_cb fr)")
        case (Inl e)
        have run: "process_frames h (fr # frs) = [(ENTRY, entry_now fr, evs1)]"
          using True c1 Inl by simp
        show ?thesis unfolding run using s1(2)
          by (cases z) (auto simp add: crossing_times_simps)
      next
        case (Inr r2)
        obtain h2 evs2 where r2: "r2 = (h2, evs2)" by (cases r2)
        note c2 = Inr [unfolded r2]
        note s2 = check_step [OF c2]
        have cd: "crossing_cooldown h2 = crossing_cooldown h" using s1(1) s2(1) by simp
        note ih = Cons.IH [of h2, unfolded cd]
        have run: "process_frames h (fr # frs) =
                     (ENTRY, entry_now fr, evs1) # (EXIT, exit_now fr, evs2) # process_frames h2 frs"
          using True c1 c2 by simp
        show ?thesis
        proof (cases z)
          case ENTRY
          have l2: "last_crossing_of h2 ENTRY = last_crossing_of h1 ENTRY"
            using s2(4) [of ENTRY] by simp
          show ?thesis
          proof (cases "evs1 = []")
            case True
            then have "h1 = h" using s1(3) by simp
            then show ?thesis unfolding run using ih l2 True ENTRY
              by (simp add: crossing_times_simps)
          next
            case False
            then have "last_crossing_of h1 ENTRY = entry_now fr"
                      "crossing_cooldown h \<le> entry_now fr - last_crossing_of h ENTRY"
              using s1(2) by simp_all
            then show ?thesis unfolding run using ih l2 False ENTRY
              by (simp add: crossing_times_simps)
          qed
        next
          case EXIT
          have l1: "last_crossing_of h1 EXIT = last_crossing_of h EXIT"
            using s1(4) [of EXIT] by simp
          show ?thesis
          proof (cases "evs2 = []")
            case True
            then have "h2 = h1" using s2(3) by simp
            then show ?thesis unfolding run using ih l1 True EXIT
              by (simp add: crossing_times_simps)
          next
            case False
            then have "last_crossing_of h2 EXIT = exit_now fr"
                      "crossing_cooldown h1 \<le> exit_now fr - last_crossing_of h1 EXIT"
              using s2(2) by simp_all
            then show ?thesis unfolding run using ih l1 False EXIT s1(1)
              by (simp add: crossing_times_simps)
          qed
        qed
      qed
    qed
  qed
qed

lemma run_callbacks:
  "list_all (\<lambda>c. callbacks z (snd (snd c)) \<le> (if fst c = z \<and> snd (snd c) \<noteq> [] then 1 else 0))
     (process_frames h frs)"
proof (induction frs arbitrary: h)
  case Nil
  show ?case by simp
next
  case (Cons fr frs)
  show ?case
  proof (cases "ret fr")
    case False
    then show ?thesis using Cons.IH [of h] by simp
  next
    case True
    show ?thesis
    proof (cases "check_virtual_line_crossing h (entry_now fr) (entry_contours fr) ENTRY (entry_cb fr)")
      case (Inl e)
      then show ?thesis using True by simp
    next
      case (Inr r1)
      obtain h1 evs1 where r1: "r1 = (h1, evs1)" by (cases r1)
      note c1 = Inr [unfolded r1]
      note k1 = check_callbacks [OF c1, of z]
      show ?thesis
      proof (cases "check_virtual_line_crossing h1 (exit_now fr) (exit_contours fr) EXIT (exit_cb fr)")
        case (Inl e)
        then show ?thesis using True c1 k1 by simp
      next
        case (Inr r2)
        obtain h2 evs2 where r2: "r2 = (h2, evs2)" by (cases r2)
        note c2 = Inr [unfolded r2]
        note k2 = check_callbacks [OF c2, of z]
        show ?thesis using True c1 c2 k1 k2 Cons.IH [of h2] by simp
      qed
    qed
  qed
qed

lemma callback_times_subseq:
  assumes "list_all (\<lambda>c. callbacks z (snd (snd c)) \<le> (if fst c = z \<and> snd (snd c) \<noteq> [] then 1 else 0)) run"
  shows "subseq (callback_times z run) (crossing_times z run)"
  using assms
proof (induction run)
  case Nil
  show ?case by (simp add: callback_times_simps crossing_times_simps)
next
  case (Cons c run)
  obtain z' t evs where c: "c = (z', t, evs)" by (cases c)
  have ih: "subseq (callback_times z run) (crossing_times z run)" using Cons by simp
  have k: "callbacks z evs \<le> (if z' = z \<and> evs \<noteq> [] then 1 else 0)" using Cons.prems c by simp
  show ?case
  proof (cases "callbacks z evs = 0")
    case True
    then show ?thesis using ih
      by (auto simp add: c callback_times_simps crossing_times_simps intro: list_emb_Cons)
  next
    case False
    then have "callbacks z evs = 1" "z' = z" "evs \<noteq> []" using k by (auto split: if_splits)
    then show ?thesis using ih by (simp add: c callback_times_simps crossing_times_simps)
  qed
qed

lemma window_at_most_one:
  assumes "successively (\<lambda>a b. C \<le> b - a) (ts :: rat list)"
  shows "length (filter (\<lambda>x. w \<le> x \<and> x < w + C) ts) \<le> 1"
proof (cases "C \<le> 0")
  case True
  then have "filter (\<lambda>x. w \<le> x \<and> x < w + C) ts = []"
    by (auto simp: filter_empty_conv)
  then show ?thesis by simp
next
  case False
  then have pos: "0 < C" by simp
  have "transp (\<lambda>a b :: rat. C \<le> b - a)"
    using pos by (auto simp: transp_def)
  then have "sorted_wrt (\<lambda>a b. C \<le> b - a) ts"
    using assms by (simp add: successively_conv_sorted_wrt)
  then show ?thesis
  proof (induction ts)
    case Nil
    show ?case by simp
  next
    case (Cons x xs)
    show ?case
    proof (cases "w \<le> x \<and> x < w + C")
      case True
      have "filter (\<lambda>x. w \<le> x \<and> x < w + C) xs = []"
        using Cons.prems True by (auto simp: filter_empty_conv)
      then show ?thesis using True by simp
    next
      case False
      then show ?thesis using Cons by auto
    qed
  qed
qed

lemma window_subseq:
  assumes "subseq xs ys" and "length (filter P ys) \<le> 1"
  shows "length (filter P xs) \<le> 1"
proof -
  have "subseq (filter P xs) (filter P ys)" using assms(1) by simp
  then have "length (filter P xs) \<le> length (filter P ys)" by (rule list_emb_length)
  then show ?thesis using assms(2) by simp
qed

text \<open>
  C4. A check made less than the cooldown after the zone's last declaration
  declares nothing and invokes no callback (it returns with the handler
  unchanged); a check that declares a crossing records its clock reading as the
  zone's last declaration, was made at least the cooldown after the previous one
  and invokes the zone's callback at most once. So over any run of the frame loop
  the declarations of a zone, starting from the last one before the run, are
  successively at least the cooldown apart, and at most one declaration and at
  most one callback invocation of the zone fall into any window
  \<open>[w, w + cooldown)\<close>.
\<close>

theorem cooldown_separates_crossings:
  "(t - last_crossing_of h z < crossing_cooldown h \<longrightarrow>
      \<not> crossing_declared (check_virtual_line_crossing h t cs z cb)
      \<and> callbacks_fired (check_virtual_line_crossing h t cs z cb) z = 0
      \<and> (virtual_line_of h z \<noteq> None \<longrightarrow> check_virtual_line_crossing h t cs z cb = Inr (h, [])))
   \<and> (crossing_declared (check_virtual_line_crossing h t cs z cb) \<longrightarrow>
      (\<exists>h' evs. check_virtual_line_crossing h t cs z cb = Inr (h', evs)
                \<and> last_crossing_of h' z = t
                \<and> crossing_cooldown h \<le> t - last_crossing_of h z
                \<and> callbacks z evs \<le> 1))
   \<and> successively (\<lambda>a b. crossing_cooldown h \<le> b - a)
        (last_crossing_of h z # crossing_times z (process_frames h frs))
   \<and> length (filter (\<lambda>x. w \<le> x \<and> x < w + crossing_cooldown h)
        (crossing_times z (process_frames h frs))) \<le> 1
   \<and> length (filter (\<lambda>x. w \<le> x \<and> x < w + crossing_cooldown h)
        (callback_times z (process_frames h frs))) \<le> 1"
proof (intro conjI impI)
  assume a: "t - last_crossing_of h z < crossing_cooldown h"
  show "\<not> crossing_declared (check_virtual_line_crossing h t cs z cb)"
    by (simp add: check_suppressed [OF a] crossing_declared_def split: option.splits)
  show "callbacks_fired (check_virtual_line_crossing h t cs z cb) z = 0"
    by (simp add: check_suppressed [OF a] callbacks_fired_def callbacks_def split: option.splits)
  assume "virtual_line_of h z \<noteq> None"
  then show "check_virtual_line_crossing h t cs z cb = Inr (h, [])"
    by (auto simp add: check_suppressed [OF a])
next
  assume d: "crossing_declared (check_virtual_line_crossing h t cs z cb)"
  then obtain h' evs where r: "check_virtual_line_crossing h t cs z cb = Inr (h', evs)" "evs \<noteq> []"
    by (auto simp: crossing_declared_def split: sum.splits)
  then show "\<exists>h' evs. check_virtual_line_crossing h t cs z cb = Inr (h', evs)
                \<and> last_crossing_of h' z = t
                \<and> crossing_cooldown h \<le> t - last_crossing_of h z
                \<and> callbacks z evs \<le> 1"
    using check_step(2) [OF r(1)] check_callbacks [OF r(1), of z] by simp
next
  show c: "successively (\<lambda>a b. crossing_cooldown h \<le> b - a)
        (last_crossing_of h z # crossing_times z (process_frames h frs))"
    by (rule run_chain)
  have "successively (\<lambda>a b. crossing_cooldown h \<le> b - a) (crossing_times z (process_frames h frs))"
    using c by (cases "crossing_times z (process_frames h frs)") simp_all
  then show w: "length (filter (\<lambda>x. w \<le> x \<and> x < w + crossing_cooldown h)
        (crossing_times z (process_frames h frs))) \<le> 1"
    by (rule window_at_most_one)
  show "length (filter (\<lambda>x. w \<le> x \<and> x < w + crossing_cooldown h)
        (callback_times z (process_frames h frs))) \<le> 1"
    by (rule window_subseq [OF callback_times_subseq [OF run_callbacks] w])
qed

theorem cooldown_separates_crossings_witness:
  "crossing_times ENTRY (process_frames default_handler
      [frame_at 100 [blob 600 300 100, blob 700 300 100], frame_at 101 [blob 600 300 100],
       frame_at 102 [blob 600 300 100], frame_at 104 [blob 600 300 100]]) = [100, 104]
   \<and> callback_times ENTRY (process_frames default_handler
      [frame_at 100 [blob 600 300 100, blob 700 300 100], frame_at 101 [blob 600 300 100],
       frame_at 102 [blob 600 300 100], frame_at 104 [blob 600 300 100]]) = [100, 104]
   \<and> \<not> crossing_declared (check_virtual_line_crossing
          (default_handler\<lparr>last_entry_crossing_time := 100\<rparr>) 101 [blob 600 300 100] ENTRY (Some Returns))
   \<and> crossing_declared (check_virtual_line_crossing
          (default_handler\<lparr>last_entry_crossing_time := 100\<rparr>) 104 [blob 600 300 100] ENTRY (Some Returns))
   \<and> successively (\<lambda>a b. 3 \<le> b - a) [0, 100, 104 :: rat]
   \<and> length (filter (\<lambda>x. 100 \<le> x \<and> x < 100 + 3) [100, 104 :: rat]) \<le> 1"
proof -
  let ?h = "default_handler\<lparr>last_entry_crossing_time := 100\<rparr>"
  let ?frs = "[frame_at 100 [blob 600 300 100, blob 700 300 100], frame_at 101 [blob 600 300 100],
       frame_at 102 [blob 600 300 100], frame_at 104 [blob 600 300 100]]"
  have r: "crossing_times ENTRY (process_frames default_handler ?frs) = [100, 104]"
    by code_simp
  have k: "callback_times ENTRY (process_frames default_handler ?frs) = [100, 104]"
    by code_simp
  have s: "101 - last_crossing_of ?h ENTRY < crossing_cooldown ?h"
    by (simp add: last_crossing_of_def default_handler_def)
  have d: "crossing_declared (check_virtual_line_crossing ?h 104 [blob 600 300 100] ENTRY (Some Returns))"
    by code_simp
  have c: "crossing_cooldown default_handler = 3" "last_crossing_of default_handler ENTRY = 0"
    by (simp_all add: last_crossing_of_def default_handler_def)
  have n: "\<not> crossing_declared (check_virtual_line_crossing ?h 101 [blob 600 300 100] ENTRY (Some Returns))"
    using cooldown_separates_crossings [of 101 ?h ENTRY "[blob 600 300 100]" "Some Returns" "[]" 0] s
    by blast
  note run = cooldown_separates_crossings [of 0 default_handler ENTRY "[]" None ?frs 100]
  have ch: "successively (\<lambda>a b. 3 \<le> b - a) [0, 100, 104 :: rat]"
    using run unfolding r c by blast
  have w: "length (filter (\<lambda>x. 100 \<le> x \<and> x < 100 + 3) [100, 104 :: rat]) \<le> 1"
    using run unfolding r k c by blast
  show ?thesis by (intro conjI r k n d ch w)
qed

subsection \<open>Duplicate plates\<close>

lemma dict_get_plate:
  "dict_get v ''number_plate'' JNull = Inr x \<Longrightarrow> x = record_plate v"
  by (cases v) (auto split: option.splits)

lemma find_vehicle_None:
  "find_vehicle vs p = Inr None \<Longrightarrow> JStr p \<notin> set (map record_plate vs)"
proof (induction vs)
  case Nil
  show ?case by simp
next
  case (Cons v vs)
  then show ?case
    by (auto split: sum.splits if_splits dest: dict_get_plate)
qed

lemma read_json_vehicles:
  assumes "fst (read_json (vehicles_file dm)) = Inr (JObj kvs)"
      and "(case map_of kvs ''vehicles'' of None \<Rightarrow> JArr [] | Some v \<Rightarrow> v) = JArr xs"
  shows "active_records dm = xs"
  using assms
  by (auto simp: read_json_def active_records_def split: file_content.splits option.splits)

lemma has_record_read:
  assumes "has_active_record dm p"
  shows "\<exists>kvs. fst (read_json (vehicles_file dm)) = Inr (JObj kvs)
               \<and> map_of kvs ''vehicles'' = Some (JArr (active_records dm))"
  using assms
  by (auto simp: has_active_record_def active_records_def read_json_def
           split: file_content.splits json.splits option.splits)

lemma add_try_cases:
  assumes "add_vehicle_entry_try fmt f r p t slot = Inr (ok, f', evs)"
  shows "(\<not> ok \<and> f' = f) \<or>
         (ok \<and> (\<exists>kvs xs. r = Inr (JObj kvs)
                 \<and> (case map_of kvs ''vehicles'' of None \<Rightarrow> JArr [] | Some v \<Rightarrow> v) = JArr xs
                 \<and> find_vehicle xs p = Inr None
                 \<and> f' = fst (write_json f (JObj (AList.update ''vehicles''
                          (JArr (xs @ [JObj [(''number_plate'', JStr p),
                                             (''entry_time'', JStr (fmt t)),
                                             (''slot'', JNum (of_int slot))]])) kvs)))))"
proof (cases r)
  case (Inl e)
  then show ?thesis using assms by (simp add: add_vehicle_entry_try_def)
next
  case (Inr data)
  show ?thesis
  proof (cases data)
    case (JObj kvs)
    let ?v = "case map_of kvs ''vehicles'' of None \<Rightarrow> JArr [] | Some v \<Rightarrow> v"
    show ?thesis
    proof (cases ?v)
      case (JArr xs)
      then show ?thesis using assms Inr JObj
        by (auto simp add: add_vehicle_entry_try_def Let_def split_beta
                 split: sum.splits option.splits)
    qed (use assms Inr JObj in \<open>auto simp add: add_vehicle_entry_try_def Let_def split_beta
                 split: sum.splits option.splits\<close>)
  qed (use assms Inr in \<open>auto simp add: add_vehicle_entry_try_def\<close>)
qed

lemma add_try_existing:
  assumes "r = Inr (JObj kvs)" and "map_of kvs ''vehicles'' = Some (JArr xs)"
      and "JStr p \<in> set (map record_plate xs)"
  shows "case add_vehicle_entry_try fmt f r p t slot of Inl e \<Rightarrow> True | Inr (ok, f', evs) \<Rightarrow> \<not> ok"
proof -
  have "find_vehicle xs p \<noteq> Inr None" using assms(3) find_vehicle_None by blast
  then show ?thesis using assms(1,2)
    by (auto simp add: add_vehicle_entry_try_def split: sum.splits option.splits)
qed

lemma add_vehicle_entry_False:
  "\<not> fst (add_vehicle_entry fmt dm p t slot) \<Longrightarrow> fst (snd (add_vehicle_entry fmt dm p t slot)) = dm"
  using add_try_cases [of fmt "vehicles_file dm" "fst (read_json (vehicles_file dm))" p t slot]
  by (auto simp add: add_vehicle_entry_def split_beta split: sum.splits)

lemma add_vehicle_entry_duplicate:
  assumes "has_active_record dm p"
  shows "\<not> fst (add_vehicle_entry fmt dm p t slot) \<and> fst (snd (add_vehicle_entry fmt dm p t slot)) = dm"
proof -
  obtain kvs where k: "fst (read_json (vehicles_file dm)) = Inr (JObj kvs)"
                      "map_of kvs ''vehicles'' = Some (JArr (active_records dm))"
    using has_record_read [OF assms] by blast
  have "JStr p \<in> set (map record_plate (active_records dm))"
    using assms by (simp add: has_active_record_def)
  from add_try_existing [OF k(1) k(2) this, of fmt "vehicles_file dm" t slot]
  have "\<not> fst (add_vehicle_entry fmt dm p t slot)"
    by (auto simp add: add_vehicle_entry_def split_beta split: sum.splits)
  then show ?thesis using add_vehicle_entry_False by blast
qed


lemma get_vehicle_entry_logs: "list_all is_log (snd (get_vehicle_entry parse dm p))"
  using read_json_logs [of "vehicles_file dm"]
  by (simp add: get_vehicle_entry_def split_beta split: sum.splits)

lemma write_json_logs: "list_all is_log (snd (write_json f d))"
  by (simp add: write_json_def)

lemma add_try_logs:
  "add_vehicle_entry_try fmt f r p t slot = Inr (ok, f', evs) \<Longrightarrow> list_all is_log evs"
  using write_json_logs
  by (auto simp add: add_vehicle_entry_try_def Let_def split_beta
           split: sum.splits option.splits json.splits)

lemma add_vehicle_entry_logs: "list_all is_log (snd (snd (add_vehicle_entry fmt dm p t slot)))"
  using read_json_logs [of "vehicles_file dm"]
        add_try_logs [of fmt "vehicles_file dm" "fst (read_json (vehicles_file dm))" p t slot]
  by (auto simp add: add_vehicle_entry_def split_beta split: sum.splits)

lemma extract_number_plate_sent: "sent (snd (extract_number_plate up alnum ocr img)) = []"
  by (simp add: extract_number_plate_def Let_def split: option.splits sum.splits)

lemma extract_from_zone_sent:
  "sent (snd (extract_number_plate_from_zone up alnum ocr crop fr z)) = []"
  by (simp add: extract_number_plate_from_zone_def extract_zone_def split_beta sent_append
        extract_number_plate_sent split: option.splits sum.splits)

lemma read_number_plate_sent: "sent (snd (read_number_plate env fr zi z)) = []"
  by (simp add: read_number_plate_def split_beta sent_append extract_number_plate_sent
        extract_from_zone_sent)

lemmas silent_sent =
  logs_silent [OF is_parking_full_logs, THEN conjunct1]
  logs_silent [OF get_vehicle_entry_logs, THEN conjunct1]
  logs_silent [OF get_available_slots_logs, THEN conjunct1]
  logs_silent [OF add_vehicle_entry_logs, THEN conjunct1]
  read_number_plate_sent

lemma entry_gate_needs_record:
  "''OPEN_ENTRY_GATE'' \<in> set (sent (snd (handle_entry_virtual_line env s fr zi))) \<Longrightarrow>
     \<exists>p slot. fst (add_vehicle_entry (env_isoformat env) (data_manager s) p (env_now env) slot)"
  by (auto simp add: handle_entry_virtual_line_def Let_def split_beta sent_append silent_sent
           split: if_splits option.splits list.splits)


lemma duplicate_entry_denied:
  assumes idle: "\<not> entry_gate_processing s"
      and dup: "has_active_record (data_manager s) p"
      and plate: "fst (read_number_plate env fr zi ENTRY) = Some p"
  shows "fst (handle_entry_virtual_line env s fr zi) = s"
    and "''OPEN_ENTRY_GATE'' \<notin> set (sent (snd (handle_entry_virtual_line env s fr zi)))"
    and "\<exists>m. Log WARNING m \<in> set (snd (handle_entry_virtual_line env s fr zi))
           \<or> Log ERROR m \<in> set (snd (handle_entry_virtual_line env s fr zi))"
proof -
  note a = add_vehicle_entry_duplicate [OF dup, of "env_isoformat env" "env_now env"]
  show "fst (handle_entry_virtual_line env s fr zi) = s"
    using idle plate a
    by (auto simp add: handle_entry_virtual_line_def Let_def split_beta
             split: option.splits list.splits)
  show "''OPEN_ENTRY_GATE'' \<notin> set (sent (snd (handle_entry_virtual_line env s fr zi)))"
    using idle plate a
    by (auto simp add: handle_entry_virtual_line_def Let_def split_beta sent_append silent_sent
             split: option.splits list.splits)
  show "\<exists>m. Log WARNING m \<in> set (snd (handle_entry_virtual_line env s fr zi))
           \<or> Log ERROR m \<in> set (snd (handle_entry_virtual_line env s fr zi))"
    using idle plate a
    by (auto simp add: handle_entry_virtual_line_def Let_def split_beta
             split: option.splits list.splits)
qed

lemma plates_unique_vehicles_file:
  "vehicles_file dm' = vehicles_file dm \<Longrightarrow> plates_unique dm' = plates_unique dm"
  by (simp add: plates_unique_def active_records_def)

lemma active_records_written:
  "content (vehicles_file dm') = Content (JObj (AList.update ''vehicles'' (JArr ys) kvs)) \<Longrightarrow>
     active_records dm' = ys"
  by (simp add: active_records_def update_conv')

lemma write_json_cases:
  "fst (write_json f d) = f \<or> content (fst (write_json f d)) = Content d"
  by (simp add: write_json_def)

lemma add_preserves_unique:
  assumes "plates_unique dm"
  shows "plates_unique (fst (snd (add_vehicle_entry fmt dm p t slot)))"
proof (cases "add_vehicle_entry_try fmt (vehicles_file dm) (fst (read_json (vehicles_file dm))) p t slot")
  case (Inl e)
  then show ?thesis using assms by (simp add: add_vehicle_entry_def split_beta)
next
  case (Inr res)
  obtain ok f' evs where res: "res = (ok, f', evs)" by (cases res)
  have dm': "fst (snd (add_vehicle_entry fmt dm p t slot)) = dm\<lparr>vehicles_file := f'\<rparr>"
    using Inr res by (simp add: add_vehicle_entry_def split_beta)
  from add_try_cases [OF Inr [unfolded res]]
  show ?thesis
  proof (elim disjE conjE exE)
    assume "f' = vehicles_file dm"
    then show ?thesis using assms by (simp add: dm')
  next
    fix kvs xs
    let ?entry = "JObj [(''number_plate'', JStr p), (''entry_time'', JStr (fmt t)),
                        (''slot'', JNum (of_int slot))]"
    let ?d = "JObj (AList.update ''vehicles'' (JArr (xs @ [?entry])) kvs)"
    assume r: "fst (read_json (vehicles_file dm)) = Inr (JObj kvs)"
       and v: "(case map_of kvs ''vehicles'' of None \<Rightarrow> JArr [] | Some v \<Rightarrow> v) = JArr xs"
       and nf: "find_vehicle xs p = Inr None"
       and f': "f' = fst (write_json (vehicles_file dm) ?d)"
    have old: "active_records dm = xs" by (rule read_json_vehicles [OF r v])
    from write_json_cases [of "vehicles_file dm" ?d]
    show ?thesis
    proof
      assume "fst (write_json (vehicles_file dm) ?d) = vehicles_file dm"
      then show ?thesis using assms by (simp add: dm' f')
    next
      assume "content (fst (write_json (vehicles_file dm) ?d)) = Content ?d"
      then have "active_records (dm\<lparr>vehicles_file := f'\<rparr>) = xs @ [?entry]"
        by (simp add: f' active_records_written)
      moreover have "JStr p \<notin> set (map record_plate xs)" by (rule find_vehicle_None [OF nf])
      ultimately show ?thesis
        using assms old by (auto simp add: dm' plates_unique_def)
    qed
  qed
qed

lemma without_plate_filter:
  "without_plate vs p = Inr vs' \<Longrightarrow> vs' = filter (\<lambda>v. record_plate v \<noteq> JStr p) vs"
proof (induction vs arbitrary: vs')
  case Nil
  then show ?case by simp
next
  case (Cons v vs)
  then show ?case
    by (auto split: sum.splits if_splits dest: dict_get_plate)
qed

lemma without_plate_dicts:
  "without_plate vs p = Inr vs' \<Longrightarrow> JStr x \<notin> set vs"
  by (induction vs arbitrary: vs') (auto split: sum.splits if_splits)

lemma py_iter_array:
  assumes "py_iter vehicles = Inr vs" and "without_plate vs p = Inr vs'"
  shows "vehicles = JArr vs \<or> vs = []"
proof (cases vehicles)
  case (JStr str)
  then have "vs = map (\<lambda>c. JStr [c]) str" using assms(1) by simp
  then show ?thesis using without_plate_dicts [OF assms(2)] by (cases str) auto
next
  case (JObj kvs)
  then have "vs = map (\<lambda>kv. JStr (fst kv)) kvs" using assms(1) by simp
  then show ?thesis using without_plate_dicts [OF assms(2)] by (cases kvs) auto
qed (use assms in auto)

lemma unique_filter:
  "distinct (filter is_str (map record_plate xs)) \<Longrightarrow>
     distinct (filter is_str (map record_plate (filter (\<lambda>v. record_plate v \<noteq> q) xs)))"
  by (induction xs) auto

lemma remove_preserves_unique:
  assumes "plates_unique dm"
  shows "plates_unique (fst (snd (remove_vehicle_entry dm p)))"
proof (cases "remove_vehicle_entry_try (vehicles_file dm) (fst (read_json (vehicles_file dm))) p")
  case (Inl e)
  then show ?thesis using assms by (simp add: remove_vehicle_entry_def split_beta)
next
  case (Inr res)
  obtain ok f' evs where res: "res = (ok, f', evs)" by (cases res)
  have dm': "fst (snd (remove_vehicle_entry dm p)) = dm\<lparr>vehicles_file := f'\<rparr>"
    using Inr res by (simp add: remove_vehicle_entry_def split_beta)
  have "f' = vehicles_file dm \<or>
        (\<exists>kvs vehicles vs vs'. fst (read_json (vehicles_file dm)) = Inr (JObj kvs)
            \<and> (case map_of kvs ''vehicles'' of None \<Rightarrow> JArr [] | Some v \<Rightarrow> v) = vehicles
            \<and> py_iter vehicles = Inr vs \<and> without_plate vs p = Inr vs'
            \<and> f' = fst (write_json (vehicles_file dm) (JObj (AList.update ''vehicles'' (JArr vs') kvs))))"
    using Inr [unfolded res]
    by (auto simp add: remove_vehicle_entry_try_def Let_def split_beta
             split: sum.splits if_splits json.splits)
  then show ?thesis
  proof (elim disjE exE conjE)
    assume "f' = vehicles_file dm"
    then show ?thesis using assms by (simp add: dm')
  next
    fix kvs vehicles vs vs'
    let ?d = "JObj (AList.update ''vehicles'' (JArr vs') kvs)"
    assume r: "fst (read_json (vehicles_file dm)) = Inr (JObj kvs)"
       and v: "(case map_of kvs ''vehicles'' of None \<Rightarrow> JArr [] | Some v \<Rightarrow> v) = vehicles"
       and it: "py_iter vehicles = Inr vs" and wp: "without_plate vs p = Inr vs'"
       and f': "f' = fst (write_json (vehicles_file dm) ?d)"
    have flt: "vs' = filter (\<lambda>v. record_plate v \<noteq> JStr p) vs" by (rule without_plate_filter [OF wp])
    have u: "distinct (filter is_str (map record_plate vs'))"
    proof (rule disjE [OF py_iter_array [OF it wp]])
      assume "vehicles = JArr vs"
      then have "active_records dm = vs" using read_json_vehicles [OF r] v by simp
      then show ?thesis using assms unique_filter unfolding flt plates_unique_def by blast
    next
      assume "vs = []"
      then show ?thesis by (simp add: flt)
    qed
    from write_json_cases [of "vehicles_file dm" ?d]
    show ?thesis
    proof
      assume "fst (write_json (vehicles_file dm) ?d) = vehicles_file dm"
      then show ?thesis using assms by (simp add: dm' f')
    next
      assume "content (fst (write_json (vehicles_file dm) ?d)) = Content ?d"
      then have "active_records (dm\<lparr>vehicles_file := f'\<rparr>) = vs'"
        by (simp add: f' active_records_written)
      then show ?thesis using u by (simp add: dm' plates_unique_def)
    qed
  qed
qed

lemma add_history_vehicles_file:
  "vehicles_file (fst (snd (add_history_record fmt dm p a b fee slot))) = vehicles_file dm"
  by (simp add: add_history_record_def split_beta split: sum.splits)

lemma handle_entry_preserves_unique:
  assumes "plates_unique (data_manager s)"
  shows "plates_unique (data_manager (fst (handle_entry_virtual_line env s fr zi)))"
  using assms add_preserves_unique [OF assms]
  by (auto simp add: handle_entry_virtual_line_def Let_def split_beta
           split: option.splits list.splits)

lemma handle_exit_preserves_unique:
  assumes "plates_unique (data_manager s)"
  shows "plates_unique (data_manager (fst (snd (handle_exit_virtual_line env s fr zi))))"
proof -
  have "plates_unique (fst (snd (remove_vehicle_entry
          (fst (snd (add_history_record fmt (data_manager s) p a b fee slot))) p)))" for fmt p a b fee slot
    using assms plates_unique_vehicles_file [OF add_history_vehicles_file] remove_preserves_unique
    by blast
  then show ?thesis using assms
    by (auto simp add: handle_exit_virtual_line_def Let_def split_beta
             split: option.splits sum.splits)
qed


text \<open>
  C6. If the store has an active record with the plate, \<open>add_vehicle_entry\<close> for
  that plate returns False and leaves the store as it was; an entry crossing that
  is taken up and whose plate reading gives that plate ends with the coordinator
  (store and flag) as it was, sends no \<open>OPEN_ENTRY_GATE\<close> and logs a WARNING or an
  ERROR. And the plates of the active records stay pairwise different under
  \<open>add_vehicle_entry\<close>, \<open>remove_vehicle_entry\<close> and both crossing handlers.
\<close>

theorem duplicate_plate_never_added:
  "(has_active_record dm p \<longrightarrow>
      \<not> fst (add_vehicle_entry fmt dm p t slot)
      \<and> fst (snd (add_vehicle_entry fmt dm p t slot)) = dm)
   \<and> (\<not> entry_gate_processing s \<and> has_active_record (data_manager s) p
       \<and> fst (read_number_plate env fr zi ENTRY) = Some p \<longrightarrow>
      fst (handle_entry_virtual_line env s fr zi) = s
      \<and> ''OPEN_ENTRY_GATE'' \<notin> set (sent (snd (handle_entry_virtual_line env s fr zi)))
      \<and> (\<exists>m. Log WARNING m \<in> set (snd (handle_entry_virtual_line env s fr zi))
             \<or> Log ERROR m \<in> set (snd (handle_entry_virtual_line env s fr zi))))
   \<and> (plates_unique dm \<longrightarrow>
      plates_unique (fst (snd (add_vehicle_entry fmt dm q t slot)))
      \<and> plates_unique (fst (snd (remove_vehicle_entry dm q))))
   \<and> (plates_unique (data_manager s) \<longrightarrow>
      plates_unique (data_manager (fst (handle_entry_virtual_line env s fr zi)))
      \<and> plates_unique (data_manager (fst (snd (handle_exit_virtual_line env s fr zi)))))"
  using add_vehicle_entry_duplicate [of dm p fmt t slot]
        duplicate_entry_denied [of s p env fr zi]
        add_preserves_unique [of dm fmt q t slot] remove_preserves_unique [of dm q]
        handle_entry_preserves_unique [of s env fr zi] handle_exit_preserves_unique [of s env fr zi]
  by blast

theorem duplicate_plate_never_added_witness:
  "has_active_record (store_with one_car no_history) ''ABC123''
   \<and> plates_unique (store_with one_car no_history)
   \<and> fst (read_number_plate (stub_env ''abc 123'') () () ENTRY) = Some ''ABC123''
   \<and> \<not> fst (add_vehicle_entry (env_isoformat (stub_env ''abc 123''))
              (store_with one_car no_history) ''ABC123'' (clock 12 0 0) 2)
   \<and> fst (handle_entry_virtual_line (stub_env ''abc 123'')
           (idle_system (store_with one_car no_history) 2) () ())
       = idle_system (store_with one_car no_history) 2
   \<and> ''OPEN_ENTRY_GATE'' \<notin> set (sent (snd (handle_entry_virtual_line (stub_env ''abc 123'')
           (idle_system (store_with one_car no_history) 2) () ())))
   \<and> plates_unique (fst (snd (add_vehicle_entry (env_isoformat (stub_env ''abc 123''))
              (store_with one_car no_history) ''XYZ999'' (clock 12 0 0) 2)))"
proof -
  let ?D = "store_with one_car no_history" and ?E = "stub_env ''abc 123''"
  let ?S = "idle_system ?D 2"
  have h: "has_active_record ?D ''ABC123''" by code_simp
  have u: "plates_unique ?D" by code_simp
  have r: "fst (read_number_plate ?E () () ENTRY) = Some ''ABC123''" by code_simp
  have i: "\<not> entry_gate_processing ?S" "data_manager ?S = ?D" by (simp_all add: idle_system_def)
  note T = duplicate_plate_never_added
             [where dm = ?D and p = "''ABC123''" and fmt = "env_isoformat ?E" and t = "clock 12 0 0"
                and slot = 2 and s = ?S and env = ?E and fr = "()" and zi = "()" and q = "''XYZ999''"]
  show ?thesis using T h u r i by (simp only: simp_thms) 
qed

subsection \<open>The processing flag\<close>

lemma calculate_fee_logs: "list_all is_log (snd (calculate_fee rate a b))"
  by (simp add: calculate_fee_def Let_def split: option.splits)

lemma add_history_record_logs: "list_all is_log (snd (snd (add_history_record fmt dm p a b fee slot)))"
  using read_json_logs [of "history_file dm"] write_json_logs
  by (auto simp add: add_history_record_def add_history_record_try_def Let_def split_beta
           split: sum.splits json.splits)

lemma remove_vehicle_entry_logs: "list_all is_log (snd (snd (remove_vehicle_entry dm p)))"
  using read_json_logs [of "vehicles_file dm"] write_json_logs
  by (auto simp add: remove_vehicle_entry_def remove_vehicle_entry_try_def Let_def split_beta
           split: sum.splits json.splits)

lemmas silent_sent_exit =
  logs_silent [OF calculate_fee_logs, THEN conjunct1]
  logs_silent [OF add_history_record_logs, THEN conjunct1]
  logs_silent [OF remove_vehicle_entry_logs, THEN conjunct1]

lemma entry_gate_holds_flag:
  "\<not> entry_gate_processing s \<Longrightarrow>
   ''OPEN_ENTRY_GATE'' \<in> set (sent (snd (handle_entry_virtual_line env s fr zi))) \<Longrightarrow>
     entry_gate_processing (fst (handle_entry_virtual_line env s fr zi))"
  by (auto simp add: handle_entry_virtual_line_def Let_def split_beta sent_append silent_sent
           split: if_splits option.splits list.splits)

lemma exit_gate_holds_flag:
  "\<not> exit_gate_processing s \<Longrightarrow>
   ''OPEN_EXIT_GATE'' \<in> set (sent (snd (snd (handle_exit_virtual_line env s fr zi)))) \<Longrightarrow>
     exit_gate_processing (fst (snd (handle_exit_virtual_line env s fr zi)))"
  by (auto simp add: handle_exit_virtual_line_def Let_def split_beta sent_append silent_sent
           silent_sent_exit split: if_splits option.splits sum.splits)

text \<open>
  C1. A crossing delivered while its zone's processing flag is set leaves the
  coordinator as it was and produces one WARNING log line and nothing else: no OCR
  call, no change of the store, no command. A crossing delivered while the flag is
  clear is taken up: its events start with the handler's "Vehicle detected" line,
  and when it ends with the gate opened the flag is set.
\<close>

theorem busy_zone_drops_crossing:
  "(entry_gate_processing s \<longrightarrow>
      handle_entry_virtual_line env s fr zi =
        (s, [Log WARNING ''Entry gate already processing, ignoring virtual line trigger'']))
   \<and> (exit_gate_processing s \<longrightarrow>
      handle_exit_virtual_line env s fr zi =
        (None, s, [Log WARNING ''Exit gate already processing, ignoring virtual line trigger'']))
   \<and> (\<not> entry_gate_processing s \<longrightarrow>
      (\<exists>evs. snd (handle_entry_virtual_line env s fr zi) =
              Log INFO ''Vehicle detected crossing entry virtual line'' # evs))
   \<and> (\<not> exit_gate_processing s \<longrightarrow>
      (\<exists>evs. snd (snd (handle_exit_virtual_line env s fr zi)) =
              Log INFO ''Vehicle detected crossing exit virtual line'' # evs))
   \<and> (\<not> entry_gate_processing s
       \<and> ''OPEN_ENTRY_GATE'' \<in> set (sent (snd (handle_entry_virtual_line env s fr zi))) \<longrightarrow>
      entry_gate_processing (fst (handle_entry_virtual_line env s fr zi)))
   \<and> (\<not> exit_gate_processing s
       \<and> ''OPEN_EXIT_GATE'' \<in> set (sent (snd (snd (handle_exit_virtual_line env s fr zi)))) \<longrightarrow>
      exit_gate_processing (fst (snd (handle_exit_virtual_line env s fr zi))))"
proof -
  have busy:
    "entry_gate_processing s \<longrightarrow>
       handle_entry_virtual_line env s fr zi =
         (s, [Log WARNING ''Entry gate already processing, ignoring virtual line trigger''])"
    "exit_gate_processing s \<longrightarrow>
       handle_exit_virtual_line env s fr zi =
         (None, s, [Log WARNING ''Exit gate already processing, ignoring virtual line trigger''])"
    by (simp_all add: handle_entry_virtual_line_def handle_exit_virtual_line_def)
  show ?thesis
    using busy entry_starts [of s env fr zi] exit_starts [of s env fr zi]
          entry_gate_holds_flag [of s env fr zi] exit_gate_holds_flag [of s env fr zi]
    by blast
qed

theorem busy_zone_drops_crossing_witness:
  "handle_entry_virtual_line (stub_env ''ABC123'')
      ((idle_system (store_with one_car no_history) 2)\<lparr>entry_gate_processing := True\<rparr>) () () =
     ((idle_system (store_with one_car no_history) 2)\<lparr>entry_gate_processing := True\<rparr>,
      [Log WARNING ''Entry gate already processing, ignoring virtual line trigger''])
   \<and> handle_exit_virtual_line (stub_env ''ABC123'')
      ((idle_system (store_with one_car no_history) 2)\<lparr>exit_gate_processing := True\<rparr>) () () =
     (None, (idle_system (store_with one_car no_history) 2)\<lparr>exit_gate_processing := True\<rparr>,
      [Log WARNING ''Exit gate already processing, ignoring virtual line trigger''])
   \<and> (\<exists>evs. snd (handle_entry_virtual_line (stub_env ''ABC123'')
                  (idle_system (store_with one_car no_history) 2) () ()) =
              Log INFO ''Vehicle detected crossing entry virtual line'' # evs)
   \<and> (\<exists>evs. snd (snd (handle_exit_virtual_line (stub_env ''ABC123'')
                  (idle_system (store_with one_car no_history) 2) () ())) =
              Log INFO ''Vehicle detected crossing exit virtual line'' # evs)
   \<and> exit_gate_processing (fst (snd (handle_exit_virtual_line (stub_env ''ABC123'')
                  (idle_system (store_with one_car no_history) 2) () ())))"
proof -
  let ?I = "idle_system (store_with one_car no_history) 2" and ?E = "stub_env ''ABC123''"
  have f: "entry_gate_processing (?I\<lparr>entry_gate_processing := True\<rparr>)"
          "exit_gate_processing (?I\<lparr>exit_gate_processing := True\<rparr>)"
          "\<not> entry_gate_processing ?I" "\<not> exit_gate_processing ?I"
    by (simp_all add: idle_system_def)
  have sent_exit: "''OPEN_EXIT_GATE'' \<in> set (sent (snd (snd (handle_exit_virtual_line ?E ?I () ()))))"
    by code_simp
  note busy_entry = busy_zone_drops_crossing [of "?I\<lparr>entry_gate_processing := True\<rparr>" ?E "()" "()"]
  note busy_exit = busy_zone_drops_crossing [of "?I\<lparr>exit_gate_processing := True\<rparr>" ?E "()" "()"]
  note idle = busy_zone_drops_crossing [of ?I ?E "()" "()"]
  note a = busy_entry [THEN conjunct1, THEN mp, OF f(1)]
  note b = busy_exit [THEN conjunct2, THEN conjunct1, THEN mp, OF f(2)]
  note c = idle [THEN conjunct2, THEN conjunct2, THEN conjunct1, THEN mp, OF f(3)]
  note d = idle [THEN conjunct2, THEN conjunct2, THEN conjunct2, THEN conjunct1, THEN mp, OF f(4)]
  note e = idle [THEN conjunct2, THEN conjunct2, THEN conjunct2, THEN conjunct2, THEN conjunct2,
                 THEN mp, OF conjI [OF f(4) sent_exit]]
  show ?thesis by (intro conjI a b c d e)
qed

end
